theory Spec2Isabelle
  imports Complex_Main "HOL-Library.Word"
begin

section \<open>libDaltonLens: colour vision deficiency simulation on RGBA buffers\<close>

text \<open>
  A shallow embedding of \<^verbatim>\<open>libDaltonLens.c\<close>: the sRGB channel codec, the Brettel 1997
  and Vi\'enot 1999 per-pixel transforms, the row-major walk over a strided RGBA buffer,
  and the dispatching entry point. The explicit-LMS variant of the Brettel transform
  (an earlier revision of the same file) is embedded beside it.
\<close>

subsection \<open>The platform's floating-point arithmetic\<close>

text \<open>
  The C source computes in \<^verbatim>\<open>float\<close> (and, in one expression, in \<^verbatim>\<open>double\<close>).
  What \<^verbatim>\<open>+\<close>, \<^verbatim>\<open>*\<close>, \<^verbatim>\<open>powf\<close> and the conversions return is fixed by the
  platform, not by the source, so the embedding is parametric in it: \<open>'f\<close> is the type
  of \<^verbatim>\<open>float\<close> values, \<open>'d\<close> the type of \<^verbatim>\<open>double\<close> values, the C operators
  \<^verbatim>\<open>+ - * / < <=\<close> are the operators of these types (no law about them is assumed:
  the sorts below are purely syntactic), and everything else is a field of the
  environment. Each C operator denotes one function of its operands.
\<close>

type_synonym uchar = "8 word"

record ('f, 'd) float_env =
  flit :: "real \<Rightarrow> 'f"  \<comment> \<open>a literal with suffix \<^verbatim>\<open>f\<close>, given by its decimal value\<close>
  dlit :: "real \<Rightarrow> 'd"  \<comment> \<open>an unsuffixed (\<^verbatim>\<open>double\<close>) literal\<close>
  f_of_d :: "'d \<Rightarrow> 'f"  \<comment> \<open>conversion \<^verbatim>\<open>double\<close> to \<^verbatim>\<open>float\<close>\<close>
  d_of_f :: "'f \<Rightarrow> 'd"  \<comment> \<open>promotion \<^verbatim>\<open>float\<close> to \<^verbatim>\<open>double\<close>\<close>
  f_of_int :: "int \<Rightarrow> 'f"  \<comment> \<open>conversion \<^verbatim>\<open>int\<close> to \<^verbatim>\<open>float\<close>\<close>
  powf :: "'f \<Rightarrow> 'f \<Rightarrow> 'f"
  uchar_of_f :: "'f \<Rightarrow> uchar"  \<comment> \<open>conversion to \<^verbatim>\<open>unsigned char\<close> on return\<close>
  uchar_of_d :: "'d \<Rightarrow> uchar"
  fval :: "'f \<Rightarrow> real"  \<comment> \<open>the number a \<^verbatim>\<open>float\<close> stands for\<close>
  dval :: "'d \<Rightarrow> real"  \<comment> \<open>the number a \<^verbatim>\<open>double\<close> stands for\<close>

text \<open>
  Exact arithmetic: both types are the reals, every operation returns the
  mathematical result, \<^verbatim>\<open>powf\<close> is the real power, and the conversion to
  \<^verbatim>\<open>unsigned char\<close> discards the fractional part (its result outside 0..255 is
  undefined in C; here it is reduced modulo 256).
\<close>

definition trunc_uchar :: "real \<Rightarrow> uchar" where
  "trunc_uchar x = word_of_int (if 0 \<le> x then \<lfloor>x\<rfloor> else \<lceil>x\<rceil>)"

definition exact_env :: "(real, real) float_env" where
  "exact_env = \<lparr>flit = (\<lambda>x. x), dlit = (\<lambda>x. x), f_of_d = (\<lambda>x. x), d_of_f = (\<lambda>x. x),
     f_of_int = real_of_int, powf = (\<lambda>x y. x powr y),
     uchar_of_f = trunc_uchar, uchar_of_d = trunc_uchar, fval = (\<lambda>x. x), dval = (\<lambda>x. x)\<rparr>"

text \<open>
  What is assumed of a platform where a statement depends on rounding. \<open>near x y\<close>: the
  computed \<open>x\<close> has a relative error of at most \<open>10\<^sup>-\<^sup>6\<close> (about 17 units in the last place
  of binary32) with respect to the exact \<open>y\<close>. \<open>rounds x y\<close> asks this only when \<open>y\<close> is 0 or
  of a magnitude between \<open>10\<^sup>-\<^sup>6\<close> and 1000, where binary32 neither overflows nor
  underflows. \<open>ieee_like E\<close>: the four operations and \<^verbatim>\<open>powf\<close> round in this sense; a
  result that is the value of some \<^verbatim>\<open>float\<close> is returned exactly by \<^verbatim>\<open>+ - *\<close>;
  comparisons compare the values; literals round, and integer literals and conversions
  from \<^verbatim>\<open>int\<close> up to \<open>2\<^sup>2\<^sup>4\<close> are exact; promotion to \<^verbatim>\<open>double\<close> is exact; and the
  conversion of a value in \<open>[0, 256)\<close> to \<^verbatim>\<open>unsigned char\<close> discards the fractional
  part.
  The values are real numbers: infinities and NaN are outside the model, and nothing is
  asked of a result whose exact value leaves the stated range. Exact arithmetic on the
  reals, \<open>exact_env\<close>, is one such platform.
\<close>

definition near :: "real \<Rightarrow> real \<Rightarrow> bool" where
  "near x y \<longleftrightarrow> \<bar>x - y\<bar> \<le> \<bar>y\<bar> / 10 ^ 6"

definition in_range :: "real \<Rightarrow> bool" where
  "in_range y \<longleftrightarrow> y = 0 \<or> (1 / 10 ^ 6 \<le> \<bar>y\<bar> \<and> \<bar>y\<bar> \<le> 1000)"

definition rounds :: "real \<Rightarrow> real \<Rightarrow> bool" where
  "rounds x y \<longleftrightarrow> (in_range y \<longrightarrow> near x y)"

definition float_arith :: "('f::{plus,minus,times,inverse,ord}, 'd) float_env \<Rightarrow> bool" where
  "float_arith E \<longleftrightarrow>
     (\<forall>a b. rounds (fval E (a + b)) (fval E a + fval E b)) \<and>
     (\<forall>a b. rounds (fval E (a - b)) (fval E a - fval E b)) \<and>
     (\<forall>a b. rounds (fval E (a * b)) (fval E a * fval E b)) \<and>
     (\<forall>a b. fval E b \<noteq> 0 \<longrightarrow> rounds (fval E (a / b)) (fval E a / fval E b)) \<and>
     (\<forall>a b. 0 < fval E a \<longrightarrow> rounds (fval E (powf E a b)) (fval E a powr fval E b))"

definition float_exact :: "('f::{plus,minus,times,inverse,ord}, 'd) float_env \<Rightarrow> bool" where
  "float_exact E \<longleftrightarrow>
     (\<forall>a b c. fval E c = fval E a + fval E b \<longrightarrow> fval E (a + b) = fval E a + fval E b) \<and>
     (\<forall>a b c. fval E c = fval E a - fval E b \<longrightarrow> fval E (a - b) = fval E a - fval E b) \<and>
     (\<forall>a b c. fval E c = fval E a * fval E b \<longrightarrow> fval E (a * b) = fval E a * fval E b)"

definition float_order :: "('f::{plus,minus,times,inverse,ord}, 'd) float_env \<Rightarrow> bool" where
  "float_order E \<longleftrightarrow>
     (\<forall>a b. (a < b) = (fval E a < fval E b)) \<and>
     (\<forall>a b. (a \<le> b) = (fval E a \<le> fval E b))"

definition float_convert :: "('f::{plus,minus,times,inverse,ord}, 'd) float_env \<Rightarrow> bool" where
  "float_convert E \<longleftrightarrow>
     (\<forall>x. rounds (fval E (flit E x)) x) \<and>
     (\<forall>n. \<bar>n\<bar> \<le> 2 ^ 24 \<longrightarrow> fval E (flit E (of_int n)) = of_int n) \<and>
     (\<forall>n. \<bar>n\<bar> \<le> 2 ^ 24 \<longrightarrow> fval E (f_of_int E n) = of_int n) \<and>
     (\<forall>x. 0 \<le> fval E x \<and> fval E x < 256 \<longrightarrow> uchar_of_f E x = word_of_int \<lfloor>fval E x\<rfloor>)"

definition double_arith :: "('f, 'd::{plus,times}) float_env \<Rightarrow> bool" where
  "double_arith E \<longleftrightarrow>
     (\<forall>a b. rounds (dval E (a + b)) (dval E a + dval E b)) \<and>
     (\<forall>a b. rounds (dval E (a * b)) (dval E a * dval E b)) \<and>
     (\<forall>x. rounds (dval E (dlit E x)) x) \<and>
     (\<forall>x. dval E (d_of_f E x) = fval E x) \<and>
     (\<forall>x. 0 \<le> dval E x \<and> dval E x < 256 \<longrightarrow> uchar_of_d E x = word_of_int \<lfloor>dval E x\<rfloor>)"

definition ieee_like ::
  "('f::{plus,minus,times,inverse,ord}, 'd::{plus,times}) float_env \<Rightarrow> bool" where
  "ieee_like E \<longleftrightarrow>
     float_arith E \<and> float_exact E \<and> float_order E \<and> float_convert E \<and> double_arith E"

text \<open>
  A \<^verbatim>\<open>float\<close> other than a zero is the only one of its value (binary32 has two zeros).
\<close>

definition float_unique :: "('f, 'd) float_env \<Rightarrow> bool" where
  "float_unique E \<longleftrightarrow> (\<forall>a b. fval E a = fval E b \<and> fval E a \<noteq> 0 \<longrightarrow> a = b)"

subsection \<open>Channel codec\<close>

text \<open>
  \<^verbatim>\<open>linearRGB_from_sRGB\<close>: in \<^verbatim>\<open>v / 255.f\<close> the byte is promoted to \<^verbatim>\<open>int\<close> and
  converted to \<^verbatim>\<open>float\<close>.
\<close>

definition linearRGB_from_sRGB :: "('f::{plus,inverse,ord}, 'd) float_env \<Rightarrow> uchar \<Rightarrow> 'f" where
  "linearRGB_from_sRGB E v =
     (let fv = f_of_int E (uint v) / flit E 255
      in if fv < flit E 0.04045 then fv / flit E 12.92
         else powf E ((fv + flit E 0.055) / flit E 1.055) (flit E 2.4))"

text \<open>
  \<^verbatim>\<open>sRGB_from_linearRGB\<close>: the third branch is computed in \<^verbatim>\<open>double\<close>
  (\<^verbatim>\<open>12.92\<close> has no suffix), the fourth in \<^verbatim>\<open>float\<close>; the fourth adds
  \<^verbatim>\<open>0.f\<close>, the third \<^verbatim>\<open>0.5f\<close>.
\<close>

definition sRGB_from_linearRGB ::
  "('f::{plus,minus,times,inverse,ord}, 'd::{plus,times}) float_env \<Rightarrow> 'f \<Rightarrow> uchar" where
  "sRGB_from_linearRGB E v =
     (if v \<le> flit E 0 then 0
      else if flit E 1 \<le> v then 255
      else if v < flit E 0.0031308
        then uchar_of_d E (d_of_f E (flit E 0.5) + (d_of_f E v * dlit E 12.92 * d_of_f E (flit E 255)))
      else uchar_of_f E
        (flit E 0 + flit E 255 * (powf E v (flit E 1 / flit E 2.4) * flit E 1.055 - flit E 0.055)))"

text \<open>
  The encoder as the specification words it: the same four branches, with 0.5 added before
  the truncation in both computing branches.
\<close>

definition spec_toEncoded ::
  "('f::{plus,minus,times,inverse,ord}, 'd::{plus,times}) float_env \<Rightarrow> 'f \<Rightarrow> uchar" where
  "spec_toEncoded E v =
     (if v \<le> flit E 0 then 0
      else if flit E 1 \<le> v then 255
      else if v < flit E 0.0031308
        then uchar_of_d E (d_of_f E (flit E 0.5) + (d_of_f E v * dlit E 12.92 * d_of_f E (flit E 255)))
      else uchar_of_f E
        (flit E 0.5 + flit E 255 * (flit E 1.055 * powf E v (flit E 1 / flit E 2.4) - flit E 0.055)))"

subsection \<open>Deficiencies and parameter tables\<close>

text \<open>
  \<^verbatim>\<open>enum DLDeficiency\<close> is an integer type with three enumerators; a caller can pass
  any value of it.
\<close>

type_synonym DLDeficiency = int

definition DLDeficiency_Protan :: DLDeficiency where "DLDeficiency_Protan = 0"
definition DLDeficiency_Deutan :: DLDeficiency where "DLDeficiency_Deutan = 1"
definition DLDeficiency_Tritan :: DLDeficiency where "DLDeficiency_Tritan = 2"

record 'f DLBrettel1997Params =
  rgbCvdFromRgb_1 :: "'f list"
  rgbCvdFromRgb_2 :: "'f list"
  separationPlaneNormalInRgb :: "'f list"

text \<open>
  The tables are \<^verbatim>\<open>float\<close> arrays initialised from \<^verbatim>\<open>double\<close> literals; a leading
  minus sign is the unary operator applied to the literal.
\<close>

definition brettel_protan_params :: "('f, 'd::uminus) float_env \<Rightarrow> 'f DLBrettel1997Params" where
  "brettel_protan_params E = (let c = dlit E; t = map (f_of_d E) in
     \<lparr>rgbCvdFromRgb_1 = t
        [c 0.14980, c 1.19548, - c 0.34528,
         c 0.10764, c 0.84864, c 0.04372,
         c 0.00384, - c 0.00540, c 1.00156],
      rgbCvdFromRgb_2 = t
        [c 0.14570, c 1.16172, - c 0.30742,
         c 0.10816, c 0.85291, c 0.03892,
         c 0.00386, - c 0.00524, c 1.00139],
      separationPlaneNormalInRgb = t [c 0.00048, c 0.00393, - c 0.00441]\<rparr>)"

definition brettel_deutan_params :: "('f, 'd::uminus) float_env \<Rightarrow> 'f DLBrettel1997Params" where
  "brettel_deutan_params E = (let c = dlit E; t = map (f_of_d E) in
     \<lparr>rgbCvdFromRgb_1 = t
        [c 0.36477, c 0.86381, - c 0.22858,
         c 0.26294, c 0.64245, c 0.09462,
         - c 0.02006, c 0.02728, c 0.99278],
      rgbCvdFromRgb_2 = t
        [c 0.37298, c 0.88166, - c 0.25464,
         c 0.25954, c 0.63506, c 0.10540,
         - c 0.01980, c 0.02784, c 0.99196],
      separationPlaneNormalInRgb = t [- c 0.00281, - c 0.00611, c 0.00892]\<rparr>)"

definition brettel_tritan_params :: "('f, 'd::uminus) float_env \<Rightarrow> 'f DLBrettel1997Params" where
  "brettel_tritan_params E = (let c = dlit E; t = map (f_of_d E) in
     \<lparr>rgbCvdFromRgb_1 = t
        [c 1.01277, c 0.13548, - c 0.14826,
         - c 0.01243, c 0.86812, c 0.14431,
         c 0.07589, c 0.80500, c 0.11911],
      rgbCvdFromRgb_2 = t
        [c 0.93678, c 0.18979, - c 0.12657,
         c 0.06154, c 0.81526, c 0.12320,
         - c 0.37562, c 1.12767, c 0.24796],
      separationPlaneNormalInRgb = t [c 0.03901, - c 0.02788, - c 0.01113]\<rparr>)"

definition dl_vienot_protan_rgbCvd_from_rgb :: "('f, 'd::uminus) float_env \<Rightarrow> 'f list" where
  "dl_vienot_protan_rgbCvd_from_rgb E = (let c = dlit E in map (f_of_d E)
     [c 0.11238, c 0.88762, c 0.00000,
      c 0.11238, c 0.88762, - c 0.00000,
      c 0.00401, - c 0.00401, c 1.00000])"

definition dl_vienot_deutan_rgbCvd_from_rgb :: "('f, 'd::uminus) float_env \<Rightarrow> 'f list" where
  "dl_vienot_deutan_rgbCvd_from_rgb E = (let c = dlit E in map (f_of_d E)
     [c 0.29275, c 0.70725, c 0.00000,
      c 0.29275, c 0.70725, - c 0.00000,
      - c 0.02234, c 0.02234, c 1.00000])"

definition dl_vienot_tritan_rgbCvd_from_rgb :: "('f, 'd::uminus) float_env \<Rightarrow> 'f list" where
  "dl_vienot_tritan_rgbCvd_from_rgb E = (let c = dlit E in map (f_of_d E)
     [c 1.00000, c 0.14461, - c 0.14461,
      c 0.00000, c 0.85924, c 0.14076,
      - c 0.00000, c 0.85924, c 0.14076])"

text \<open>
  The two \<^verbatim>\<open>switch\<close> statements have no \<^verbatim>\<open>default\<close>: for any other value the pointer
  keeps its initial value \<^verbatim>\<open>NULL\<close>, here \<open>None\<close>.
\<close>

definition brettel_params_of ::
  "('f, 'd::uminus) float_env \<Rightarrow> DLDeficiency \<Rightarrow> 'f DLBrettel1997Params option" where
  "brettel_params_of E deficiency =
     (if deficiency = DLDeficiency_Protan then Some (brettel_protan_params E)
      else if deficiency = DLDeficiency_Deutan then Some (brettel_deutan_params E)
      else if deficiency = DLDeficiency_Tritan then Some (brettel_tritan_params E)
      else None)"

definition vienot_matrix_of :: "('f, 'd::uminus) float_env \<Rightarrow> DLDeficiency \<Rightarrow> 'f list option" where
  "vienot_matrix_of E deficiency =
     (if deficiency = DLDeficiency_Protan then Some (dl_vienot_protan_rgbCvd_from_rgb E)
      else if deficiency = DLDeficiency_Deutan then Some (dl_vienot_deutan_rgbCvd_from_rgb E)
      else if deficiency = DLDeficiency_Tritan then Some (dl_vienot_tritan_rgbCvd_from_rgb E)
      else None)"

subsection \<open>Per-pixel transforms\<close>

text \<open>The loop body of both transforms starts by decoding the three colour bytes.\<close>

type_synonym rgb8 = "uchar \<times> uchar \<times> uchar"

definition decode_rgb :: "('f::{plus,inverse,ord}, 'd) float_env \<Rightarrow> rgb8 \<Rightarrow> 'f list" where
  "decode_rgb E px = (case px of (r, g, b) \<Rightarrow>
     [linearRGB_from_sRGB E r, linearRGB_from_sRGB E g, linearRGB_from_sRGB E b])"

definition encode_rgb ::
  "('f::{plus,minus,times,inverse,ord}, 'd::{plus,times}) float_env \<Rightarrow> 'f list \<Rightarrow> rgb8" where
  "encode_rgb E rgb_cvd =
     (sRGB_from_linearRGB E (rgb_cvd ! 0), sRGB_from_linearRGB E (rgb_cvd ! 1),
      sRGB_from_linearRGB E (rgb_cvd ! 2))"

text \<open>\<^verbatim>\<open>rgb_cvd = M * rgb\<close>, written out as in both loop bodies.\<close>

definition mat_vec :: "('f::{plus,times}) list \<Rightarrow> 'f list \<Rightarrow> 'f list" where
  "mat_vec m rgb =
     [m ! 0 * rgb ! 0 + m ! 1 * rgb ! 1 + m ! 2 * rgb ! 2,
      m ! 3 * rgb ! 0 + m ! 4 * rgb ! 1 + m ! 5 * rgb ! 2,
      m ! 6 * rgb ! 0 + m ! 7 * rgb ! 1 + m ! 8 * rgb ! 2]"

text \<open>
  Brettel 1997, lines 183 to 198: the dot product with the separation plane normal, the
  choice of the matrix (the \<^verbatim>\<open>0\<close> of \<^verbatim>\<open>dotWithSepPlane >= 0\<close> is an \<^verbatim>\<open>int\<close>
  converted to \<^verbatim>\<open>float\<close>), the product and the severity interpolation. The local
  pointer \<^verbatim>\<open>rgbCvdFromRgb\<close> is a function of the parameters and the decoded pixel.
\<close>

definition dotWithSepPlane :: "('f::{plus,times}) DLBrettel1997Params \<Rightarrow> 'f list \<Rightarrow> 'f" where
  "dotWithSepPlane params rgb = (let n = separationPlaneNormalInRgb params in
     rgb ! 0 * n ! 0 + rgb ! 1 * n ! 1 + rgb ! 2 * n ! 2)"

definition rgbCvdFromRgb ::
  "('f::{plus,times,ord}, 'd) float_env \<Rightarrow> 'f DLBrettel1997Params \<Rightarrow> 'f list \<Rightarrow> 'f list" where
  "rgbCvdFromRgb E params rgb =
     (if f_of_int E 0 \<le> dotWithSepPlane params rgb
      then rgbCvdFromRgb_1 params else rgbCvdFromRgb_2 params)"

definition brettel1997_interpolate ::
  "('f::{plus,minus,times}, 'd) float_env \<Rightarrow> 'f list \<Rightarrow> 'f \<Rightarrow> 'f list \<Rightarrow> 'f list" where
  "brettel1997_interpolate E rgb_cvd severity rgb =
     [rgb_cvd ! 0 * severity + rgb ! 0 * (flit E 1 - severity),
      rgb_cvd ! 1 * severity + rgb ! 1 * (flit E 1 - severity),
      rgb_cvd ! 2 * severity + rgb ! 2 * (flit E 1 - severity)]"

definition brettel1997_linear ::
  "('f::{plus,minus,times,ord}, 'd) float_env \<Rightarrow> 'f DLBrettel1997Params \<Rightarrow> 'f \<Rightarrow> 'f list \<Rightarrow> 'f list" where
  "brettel1997_linear E params severity rgb =
     brettel1997_interpolate E (mat_vec (rgbCvdFromRgb E params rgb) rgb) severity rgb"

definition brettel1997_rgb ::
  "('f::{plus,minus,times,inverse,ord}, 'd::{plus,times}) float_env \<Rightarrow>
     'f DLBrettel1997Params \<Rightarrow> 'f \<Rightarrow> rgb8 \<Rightarrow> rgb8" where
  "brettel1997_rgb E params severity px =
     encode_rgb E (brettel1997_linear E params severity (decode_rgb E px))"

text \<open>Vi\'enot 1999, lines 276 to 289: one matrix, and the interpolation guarded by
  \<^verbatim>\<open>severity < 0.999f\<close>.\<close>

definition vienot1999_interpolate ::
  "('f::{plus,minus,times,ord}, 'd) float_env \<Rightarrow> 'f list \<Rightarrow> 'f \<Rightarrow> 'f list \<Rightarrow> 'f list" where
  "vienot1999_interpolate E rgb_cvd severity rgb =
     (if severity < flit E 0.999
      then [severity * rgb_cvd ! 0 + (flit E 1 - severity) * rgb ! 0,
            severity * rgb_cvd ! 1 + (flit E 1 - severity) * rgb ! 1,
            severity * rgb_cvd ! 2 + (flit E 1 - severity) * rgb ! 2]
      else rgb_cvd)"

definition vienot1999_linear ::
  "('f::{plus,minus,times,ord}, 'd) float_env \<Rightarrow> 'f list \<Rightarrow> 'f \<Rightarrow> 'f list \<Rightarrow> 'f list" where
  "vienot1999_linear E rgbCvd_from_rgb severity rgb =
     vienot1999_interpolate E (mat_vec rgbCvd_from_rgb rgb) severity rgb"

definition vienot1999_rgb ::
  "('f::{plus,minus,times,inverse,ord}, 'd::{plus,times}) float_env \<Rightarrow>
     'f list \<Rightarrow> 'f \<Rightarrow> rgb8 \<Rightarrow> rgb8" where
  "vienot1999_rgb E rgbCvd_from_rgb severity px =
     encode_rgb E (vienot1999_linear E rgbCvd_from_rgb severity (decode_rgb E px))"

subsection \<open>The buffer walk\<close>

text \<open>
  Memory is a store from byte addresses to bytes; \<^verbatim>\<open>srgba_image\<close> is an address and
  \<^verbatim>\<open>size_t\<close> values are natural numbers (a geometry that lies inside one object never
  wraps). The two entry points contain the same pair of loops around different bodies;
  the loops are embedded once, with the body as an argument. A body reads the three
  colour bytes of its pixel, then either faults (it dereferences the parameter pointer,
  which may be \<^verbatim>\<open>NULL\<close>) or writes the three bytes back.
\<close>

type_synonym memory = "nat \<Rightarrow> uchar"

datatype fault = NullPointer

type_synonym pixel_body = "rgb8 \<Rightarrow> fault + rgb8"

definition load_rgb :: "memory \<Rightarrow> nat \<Rightarrow> rgb8" where
  "load_rgb mem p = (mem p, mem (p + 1), mem (p + 2))"

definition store_rgb :: "memory \<Rightarrow> nat \<Rightarrow> rgb8 \<Rightarrow> memory" where
  "store_rgb mem p px = (case px of (r, g, b) \<Rightarrow> mem(p := r, p + 1 := g, p + 2 := b))"

definition pixel_step :: "pixel_body \<Rightarrow> memory \<Rightarrow> nat \<Rightarrow> fault + memory" where
  "pixel_step body mem p =
     (case body (load_rgb mem p) of Inl e \<Rightarrow> Inl e | Inr px \<Rightarrow> Inr (store_rgb mem p px))"

function col_loop :: "pixel_body \<Rightarrow> nat \<Rightarrow> nat \<Rightarrow> nat \<Rightarrow> memory \<Rightarrow> fault + memory" where
  "col_loop body rowPtr width col mem =
     (if col < width * 4
      then (case pixel_step body mem (rowPtr + col) of
              Inl e \<Rightarrow> Inl e
            | Inr mem' \<Rightarrow> col_loop body rowPtr width (col + 4) mem')
      else Inr mem)"
  by pat_completeness auto
termination
  by (relation "measure (\<lambda>(body, rowPtr, width, col, mem). width * 4 - col)") auto

declare col_loop.simps [simp del]

function row_loop ::
  "pixel_body \<Rightarrow> nat \<Rightarrow> nat \<Rightarrow> nat \<Rightarrow> nat \<Rightarrow> nat \<Rightarrow> memory \<Rightarrow> fault + memory" where
  "row_loop body srgba_image width height bytesPerRow row mem =
     (if row < height
      then (case col_loop body (srgba_image + bytesPerRow * row) width 0 mem of
              Inl e \<Rightarrow> Inl e
            | Inr mem' \<Rightarrow> row_loop body srgba_image width height bytesPerRow (row + 1) mem')
      else Inr mem)"
  by pat_completeness auto
termination
  by (relation "measure (\<lambda>(body, srgba_image, width, height, bytesPerRow, row, mem). height - row)") auto

declare row_loop.simps [simp del]

subsection \<open>Entry points\<close>

definition brettel1997_body ::
  "('f::{plus,minus,times,inverse,ord}, 'd::{plus,times}) float_env \<Rightarrow>
     'f DLBrettel1997Params option \<Rightarrow> 'f \<Rightarrow> pixel_body" where
  "brettel1997_body E params severity px =
     (case params of None \<Rightarrow> Inl NullPointer
      | Some p \<Rightarrow> Inr (brettel1997_rgb E p severity px))"

definition vienot1999_body ::
  "('f::{plus,minus,times,inverse,ord}, 'd::{plus,times}) float_env \<Rightarrow>
     'f list option \<Rightarrow> 'f \<Rightarrow> pixel_body" where
  "vienot1999_body E rgbCvd_from_rgb severity px =
     (case rgbCvd_from_rgb of None \<Rightarrow> Inl NullPointer
      | Some m \<Rightarrow> Inr (vienot1999_rgb E m severity px))"

definition dl_simulate_cvd_brettel1997 ::
  "('f::{plus,minus,times,inverse,ord}, 'd::{plus,times,uminus}) float_env \<Rightarrow>
     DLDeficiency \<Rightarrow> 'f \<Rightarrow> memory \<Rightarrow> nat \<Rightarrow> nat \<Rightarrow> nat \<Rightarrow> nat \<Rightarrow> fault + memory" where
  "dl_simulate_cvd_brettel1997 E deficiency severity mem srgba_image width height bytesPerRow =
     (let bytesPerRow = (if bytesPerRow = 0 then width * 4 else bytesPerRow);
          params = brettel_params_of E deficiency
      in row_loop (brettel1997_body E params severity) srgba_image width height bytesPerRow 0 mem)"

definition dl_simulate_cvd_vienot1999 ::
  "('f::{plus,minus,times,inverse,ord}, 'd::{plus,times,uminus}) float_env \<Rightarrow>
     DLDeficiency \<Rightarrow> 'f \<Rightarrow> memory \<Rightarrow> nat \<Rightarrow> nat \<Rightarrow> nat \<Rightarrow> nat \<Rightarrow> fault + memory" where
  "dl_simulate_cvd_vienot1999 E deficiency severity mem srgba_image width height bytesPerRow =
     (let bytesPerRow = (if bytesPerRow = 0 then width * 4 else bytesPerRow);
          rgbCvd_from_rgb = vienot_matrix_of E deficiency
      in row_loop (vienot1999_body E rgbCvd_from_rgb severity) srgba_image width height bytesPerRow 0 mem)"

definition dl_simulate_cvd ::
  "('f::{plus,minus,times,inverse,ord}, 'd::{plus,times,uminus}) float_env \<Rightarrow>
     DLDeficiency \<Rightarrow> 'f \<Rightarrow> memory \<Rightarrow> nat \<Rightarrow> nat \<Rightarrow> nat \<Rightarrow> nat \<Rightarrow> fault + memory" where
  "dl_simulate_cvd E deficiency severity mem srgba_image width height bytesPerRow =
     (if deficiency = DLDeficiency_Tritan
      then dl_simulate_cvd_brettel1997 E deficiency severity mem srgba_image width height bytesPerRow
      else dl_simulate_cvd_vienot1999 E deficiency severity mem srgba_image width height bytesPerRow)"


subsection \<open>The explicit-LMS formulation of Brettel 1997\<close>

text \<open>
  The explicit-LMS revision of the Brettel transform: the two conversion matrices, the
  parameter record (which here holds one row of each projection and the normal in LMS
  space), and the loop body in which only the coordinate \<^verbatim>\<open>lmsElementToProject\<close> of the
  LMS vector changes. Names that the two revisions share carry the suffix \<open>_lms\<close>.
\<close>

definition LMS_from_linearRGB :: "('f, 'd::uminus) float_env \<Rightarrow> 'f list" where
  "LMS_from_linearRGB E = (let c = dlit E in map (f_of_d E)
     [c 0.17886, c 0.43997, c 0.03597,
      c 0.03380, c 0.27515, c 0.03621,
      c 0.00031, c 0.00192, c 0.01528])"

definition linearRGB_from_LMS :: "('f, 'd::uminus) float_env \<Rightarrow> 'f list" where
  "linearRGB_from_LMS E = (let c = dlit E in map (f_of_d E)
     [c 8.00533, - c 12.88195, c 11.68065,
      - c 0.97821, c 5.26945, - c 10.18300,
      - c 0.04017, - c 0.39885, c 66.48079])"

record 'f DLBrettel1997Params_lms =
  lmsElementToProject :: nat
  projectionOnPlane1 :: "'f list"
  projectionOnPlane2 :: "'f list"
  separationPlaneNormal :: "'f list"





text \<open>The loop body between decoding and encoding; the two file-level matrices are
  arguments, so that a statement can range over them.\<close>

definition brettel1997_lms_linear ::
  "('f::{plus,minus,times,ord}, 'd) float_env \<Rightarrow> 'f list \<Rightarrow> 'f list \<Rightarrow>
     'f DLBrettel1997Params_lms \<Rightarrow> 'f \<Rightarrow> 'f list \<Rightarrow> 'f list" where
  "brettel1997_lms_linear E lms_from_rgb rgb_from_lms params severity rgb =
     (let lms = mat_vec lms_from_rgb rgb;
          n = separationPlaneNormal params;
          dotWithSepPlane = lms ! 0 * n ! 0 + lms ! 1 * n ! 1 + lms ! 2 * n ! 2;
          projectionOnPlane = (if f_of_int E 0 \<le> dotWithSepPlane
                               then projectionOnPlane1 params else projectionOnPlane2 params);
          projected_element = projectionOnPlane ! 0 * lms ! 0 + projectionOnPlane ! 1 * lms ! 1
                              + projectionOnPlane ! 2 * lms ! 2;
          lms' = lms[lmsElementToProject params :=
                   projected_element * severity
                   + lms ! lmsElementToProject params * (flit E 1 - severity)]
      in mat_vec rgb_from_lms lms')"




text \<open>
  How the comments of \<^verbatim>\<open>struct DLBrettel1997Params\<close> derive the combined tables from the
  LMS ones: each matrix is \<^verbatim>\<open>rgbFromLms . projection . lmsFromRgb\<close>, where the projection
  is the identity with the row \<^verbatim>\<open>lmsElementToProject\<close> replaced, and the normal is
  \<^verbatim>\<open>normalInLms . lmsFromRgb\<close>. Matrices are row-major lists of nine entries.
\<close>

definition mat_mul :: "real list \<Rightarrow> real list \<Rightarrow> real list" where
  "mat_mul x y =
     [x ! 0 * y ! 0 + x ! 1 * y ! 3 + x ! 2 * y ! 6,
      x ! 0 * y ! 1 + x ! 1 * y ! 4 + x ! 2 * y ! 7,
      x ! 0 * y ! 2 + x ! 1 * y ! 5 + x ! 2 * y ! 8,
      x ! 3 * y ! 0 + x ! 4 * y ! 3 + x ! 5 * y ! 6,
      x ! 3 * y ! 1 + x ! 4 * y ! 4 + x ! 5 * y ! 7,
      x ! 3 * y ! 2 + x ! 4 * y ! 5 + x ! 5 * y ! 8,
      x ! 6 * y ! 0 + x ! 7 * y ! 3 + x ! 8 * y ! 6,
      x ! 6 * y ! 1 + x ! 7 * y ! 4 + x ! 8 * y ! 7,
      x ! 6 * y ! 2 + x ! 7 * y ! 5 + x ! 8 * y ! 8]"

definition identity3 :: "real list" where
  "identity3 = [1, 0, 0, 0, 1, 0, 0, 0, 1]"

definition projection_matrix :: "nat \<Rightarrow> real list \<Rightarrow> real list" where
  "projection_matrix k p =
     (if k = 0 then [p ! 0, p ! 1, p ! 2, 0, 1, 0, 0, 0, 1]
      else if k = 1 then [1, 0, 0, p ! 0, p ! 1, p ! 2, 0, 0, 1]
      else [1, 0, 0, 0, 1, 0, p ! 0, p ! 1, p ! 2])"

definition vec_mat :: "real list \<Rightarrow> real list \<Rightarrow> real list" where
  "vec_mat n y =
     [n ! 0 * y ! 0 + n ! 1 * y ! 3 + n ! 2 * y ! 6,
      n ! 0 * y ! 1 + n ! 1 * y ! 4 + n ! 2 * y ! 7,
      n ! 0 * y ! 2 + n ! 1 * y ! 5 + n ! 2 * y ! 8]"

definition combined_params ::
  "real list \<Rightarrow> real list \<Rightarrow> real DLBrettel1997Params_lms \<Rightarrow> real DLBrettel1997Params" where
  "combined_params lms_from_rgb rgb_from_lms params =
     \<lparr>rgbCvdFromRgb_1 = mat_mul rgb_from_lms
        (mat_mul (projection_matrix (lmsElementToProject params) (projectionOnPlane1 params)) lms_from_rgb),
      rgbCvdFromRgb_2 = mat_mul rgb_from_lms
        (mat_mul (projection_matrix (lmsElementToProject params) (projectionOnPlane2 params)) lms_from_rgb),
      separationPlaneNormalInRgb = vec_mat (separationPlaneNormal params) lms_from_rgb\<rparr>"




text \<open>Tables for which the two formulations do agree: a diagonal scaling as LMS basis.\<close>

definition scaling_lms_from_rgb :: "real list" where
  "scaling_lms_from_rgb = [2, 0, 0, 0, 4, 0, 0, 0, 5]"

definition scaling_rgb_from_lms :: "real list" where
  "scaling_rgb_from_lms = [1 / 2, 0, 0, 0, 1 / 4, 0, 0, 0, 1 / 5]"

definition scaling_params :: "real DLBrettel1997Params_lms" where
  "scaling_params = \<lparr>lmsElementToProject = 2, projectionOnPlane1 = [1 / 10, 3 / 10, 0],
     projectionOnPlane2 = [2 / 10, 1 / 10, 0], separationPlaneNormal = [1, - 1, 0]\<rparr>"

subsection \<open>Geometry\<close>

text \<open>
  A stride of 0 stands for \<^verbatim>\<open>width * 4\<close>; the interface asks any other stride to be at
  least \<^verbatim>\<open>width * 4\<close>. The pixel in row \<open>row\<close> and column \<open>c\<close> starts at
  \<open>pixel_addr\<close>; its colour bytes are the three bytes from there, its alpha byte the
  fourth.
\<close>

definition effective_stride :: "nat \<Rightarrow> nat \<Rightarrow> nat" where
  "effective_stride width bytesPerRow = (if bytesPerRow = 0 then width * 4 else bytesPerRow)"

definition stride_ok :: "nat \<Rightarrow> nat \<Rightarrow> bool" where
  "stride_ok width bytesPerRow \<longleftrightarrow> bytesPerRow = 0 \<or> width * 4 \<le> bytesPerRow"

definition pixel_addr :: "nat \<Rightarrow> nat \<Rightarrow> nat \<Rightarrow> nat \<Rightarrow> nat" where
  "pixel_addr srgba_image stride row c = srgba_image + stride * row + 4 * c"

definition valid_deficiency :: "DLDeficiency \<Rightarrow> bool" where
  "valid_deficiency d \<longleftrightarrow>
     d = DLDeficiency_Protan \<or> d = DLDeficiency_Deutan \<or> d = DLDeficiency_Tritan"

text \<open>
  What a total scan of the buffer with the pure per-pixel function \<open>f\<close> leaves behind:
  the call returns, the colour bytes of every pixel are \<open>f\<close> of the colour bytes that
  were there before the call, and every byte that is not a colour byte of a pixel of the
  image is as before.
\<close>

definition total_scan ::
  "(rgb8 \<Rightarrow> rgb8) \<Rightarrow> memory \<Rightarrow> nat \<Rightarrow> nat \<Rightarrow> nat \<Rightarrow> nat \<Rightarrow> fault + memory \<Rightarrow> bool" where
  "total_scan f mem srgba_image width height stride result \<longleftrightarrow>
     (\<exists>mem'. result = Inr mem' \<and>
        (\<forall>row c. row < height \<and> c < width \<longrightarrow>
           load_rgb mem' (pixel_addr srgba_image stride row c) =
             f (load_rgb mem (pixel_addr srgba_image stride row c))) \<and>
        (\<forall>a. (\<forall>row c. row < height \<and> c < width \<longrightarrow>
                a < pixel_addr srgba_image stride row c \<or> pixel_addr srgba_image stride row c + 3 \<le> a)
             \<longrightarrow> mem' a = mem a))"

text \<open>The bytes of each row between \<^verbatim>\<open>width * 4\<close> and the stride are as before.\<close>

definition padding_kept :: "memory \<Rightarrow> nat \<Rightarrow> nat \<Rightarrow> nat \<Rightarrow> fault + memory \<Rightarrow> bool" where
  "padding_kept mem srgba_image width stride result \<longleftrightarrow>
     (\<exists>mem'. result = Inr mem' \<and>
        (\<forall>row k. width * 4 \<le> k \<and> k < stride \<longrightarrow>
           mem' (srgba_image + stride * row + k) = mem (srgba_image + stride * row + k)))"

text \<open>A two-row, one-column test image with a stride of 8: each row is one pixel followed
  by four padding bytes.\<close>

definition test_image :: memory where
  "test_image a = (if a < 16 then [10, 0, 0, 255, 7, 7, 7, 7, 8, 10, 0, 128, 9, 9, 9, 9] ! a else 0)"

text \<open>A one-row image of two pixels: a grey one, which lies on the separation plane of
  every deficiency in exact arithmetic, and a green one.\<close>

definition plane_image :: memory where
  "plane_image a = (if a < 8 then [10, 10, 10, 255, 0, 5, 0, 255] ! a else 0)"


subsection \<open>Severity\<close>






text \<open>
  The full simulated colour of a pixel: the decoded pixel times the matrix, encoded, with
  no interpolation. For Brettel 1997 the matrix is the one of the pixel's half-plane.
\<close>

definition full_brettel ::
  "('f::{plus,minus,times,inverse,ord}, 'd::{plus,times}) float_env \<Rightarrow>
     'f DLBrettel1997Params \<Rightarrow> rgb8 \<Rightarrow> rgb8" where
  "full_brettel E params px =
     encode_rgb E (mat_vec (rgbCvdFromRgb E params (decode_rgb E px)) (decode_rgb E px))"

definition full_vienot ::
  "('f::{plus,minus,times,inverse,ord}, 'd::{plus,times}) float_env \<Rightarrow> 'f list \<Rightarrow> rgb8 \<Rightarrow> rgb8" where
  "full_vienot E rgbCvd_from_rgb px = encode_rgb E (mat_vec rgbCvd_from_rgb (decode_rgb E px))"



subsection \<open>Rounding tolerance\<close>

text \<open>
  \<open>rel_close e x y\<close>: \<open>x\<close> lies within the relative tolerance \<open>e\<close> of a non-negative \<open>y\<close>.
  The number that decoding the byte \<open>V\<close> yields in exact arithmetic is \<open>toe V\<close> on the
  linear segment and \<open>gamma_base V powr 2.4\<close> on the power segment.
\<close>

definition rel_close :: "real \<Rightarrow> real \<Rightarrow> real \<Rightarrow> bool" where
  "rel_close e x y \<longleftrightarrow> y * (1 - e) \<le> x \<and> x \<le> y * (1 + e)"

definition gamma_base :: "real \<Rightarrow> real" where
  "gamma_base V = (V / 255 + 0.055) / 1.055"

definition toe :: "real \<Rightarrow> real" where
  "toe V = V / 255 / 12.92"

text \<open>Decoding a byte and encoding the result, as the loop bodies do around the transform.\<close>

definition round_trip ::
  "('f::{plus,minus,times,inverse,ord}, 'd::{plus,times}) float_env \<Rightarrow> uchar \<Rightarrow> uchar" where
  "round_trip E v = sRGB_from_linearRGB E (linearRGB_from_sRGB E v)"

text \<open>
  Two bytes that differ by at most 1, three colour bytes that do so channel by channel,
  and a call that returns with every pixel's colour bytes that close to what they were.
\<close>

definition byte_near :: "uchar \<Rightarrow> uchar \<Rightarrow> bool" where
  "byte_near a b \<longleftrightarrow> \<bar>uint a - uint b\<bar> \<le> 1"

definition colour_near :: "rgb8 \<Rightarrow> rgb8 \<Rightarrow> bool" where
  "colour_near p q \<longleftrightarrow>
     (case p of (r, g, b) \<Rightarrow> case q of (r', g', b') \<Rightarrow>
        byte_near r r' \<and> byte_near g g' \<and> byte_near b b')"

definition colours_kept :: "memory \<Rightarrow> nat \<Rightarrow> nat \<Rightarrow> nat \<Rightarrow> nat \<Rightarrow> fault + memory \<Rightarrow> bool" where
  "colours_kept mem srgba_image width height stride result \<longleftrightarrow>
     (\<exists>mem'. result = Inr mem' \<and>
        (\<forall>row c. row < height \<and> c < width \<longrightarrow>
           colour_near (load_rgb mem' (pixel_addr srgba_image stride row c))
                       (load_rgb mem (pixel_addr srgba_image stride row c))))"

section \<open>Properties\<close>

subsection \<open>The loops visit every pixel once and nothing else\<close>

lemma load_store_same: "load_rgb (store_rgb mem p px) p = px"
  by (cases px) (simp add: load_rgb_def store_rgb_def)

lemma load_store_other:
  "q + 3 \<le> p \<or> p + 3 \<le> q \<Longrightarrow> load_rgb (store_rgb mem p px) q = load_rgb mem q"
  by (cases px) (auto simp add: load_rgb_def store_rgb_def)

lemma store_other: "a < p \<or> p + 3 \<le> a \<Longrightarrow> store_rgb mem p px a = mem a"
  by (cases px) (auto simp add: store_rgb_def)

lemma col_loop_total:
  fixes f :: "rgb8 \<Rightarrow> rgb8"
  defines "body \<equiv> \<lambda>px. Inr (f px)"
  shows "\<exists>mem'. col_loop body rp w (4 * j) mem = Inr mem' \<and>
           (\<forall>c. j \<le> c \<and> c < w \<longrightarrow> load_rgb mem' (rp + 4 * c) = f (load_rgb mem (rp + 4 * c))) \<and>
           (\<forall>a. (\<forall>c. j \<le> c \<and> c < w \<longrightarrow> a < rp + 4 * c \<or> rp + 4 * c + 3 \<le> a) \<longrightarrow> mem' a = mem a)"
proof (induction "w - j" arbitrary: j mem)
  case 0
  then have "\<not> 4 * j < w * 4" by simp
  then show ?case by (subst col_loop.simps) auto
next
  case (Suc k)
  then have lt: "j < w" and k: "k = w - Suc j" by simp_all
  let ?m1 = "store_rgb mem (rp + 4 * j) (f (load_rgb mem (rp + 4 * j)))"
  from Suc.hyps(1)[OF k, of ?m1] obtain mem' where
    run: "col_loop body rp w (4 * Suc j) ?m1 = Inr mem'" and
    px: "\<And>c. Suc j \<le> c \<Longrightarrow> c < w \<Longrightarrow> load_rgb mem' (rp + 4 * c) = f (load_rgb ?m1 (rp + 4 * c))" and
    fr: "\<And>a. (\<forall>c. Suc j \<le> c \<and> c < w \<longrightarrow> a < rp + 4 * c \<or> rp + 4 * c + 3 \<le> a) \<Longrightarrow> mem' a = ?m1 a"
    by blast
  have e: "4 * Suc j = 4 * j + 4" by simp
  have step: "col_loop body rp w (4 * j) mem = col_loop body rp w (4 * Suc j) ?m1"
    unfolding e using lt by (subst col_loop.simps) (simp add: pixel_step_def body_def)
  have here: "load_rgb mem' (rp + 4 * j) = f (load_rgb mem (rp + 4 * j))"
  proof -
    have "mem' (rp + 4 * j + i) = ?m1 (rp + 4 * j + i)" if "i < 3" for i
      using that by (intro fr) auto
    from this[of 0] this[of 1] this[of 2]
    have "load_rgb mem' (rp + 4 * j) = load_rgb ?m1 (rp + 4 * j)"
      by (simp add: load_rgb_def)
    then show ?thesis by (simp add: load_store_same)
  qed
  have later: "load_rgb mem' (rp + 4 * c) = f (load_rgb mem (rp + 4 * c))" if "Suc j \<le> c" "c < w" for c
    using px[OF that] that by (simp add: load_store_other)
  have frame: "mem' a = mem a" if "\<forall>c. j \<le> c \<and> c < w \<longrightarrow> a < rp + 4 * c \<or> rp + 4 * c + 3 \<le> a" for a
  proof -
    have "mem' a = ?m1 a" using that by (intro fr) auto
    moreover have "?m1 a = mem a" using that lt by (intro store_other) auto
    ultimately show ?thesis by simp
  qed
  show ?case
  proof (intro exI conjI allI impI)
    show "col_loop body rp w (4 * j) mem = Inr mem'" using step run by simp
  next
    fix c assume "j \<le> c \<and> c < w"
    then show "load_rgb mem' (rp + 4 * c) = f (load_rgb mem (rp + 4 * c))"
      using here later[of c] by (cases "c = j") auto
  next
    fix a assume "\<forall>c. j \<le> c \<and> c < w \<longrightarrow> a < rp + 4 * c \<or> rp + 4 * c + 3 \<le> a"
    then show "mem' a = mem a" by (rule frame)
  qed
qed


lemma row_loop_total:
  fixes f :: "rgb8 \<Rightarrow> rgb8"
  defines "body \<equiv> \<lambda>px. Inr (f px)"
  assumes stride: "4 * w \<le> bpr"
  shows "\<exists>mem'. row_loop body img w h bpr r0 mem = Inr mem' \<and>
           (\<forall>r c. r0 \<le> r \<and> r < h \<and> c < w \<longrightarrow>
              load_rgb mem' (img + bpr * r + 4 * c) = f (load_rgb mem (img + bpr * r + 4 * c))) \<and>
           (\<forall>a. (\<forall>r c. r0 \<le> r \<and> r < h \<and> c < w \<longrightarrow>
                   a < img + bpr * r + 4 * c \<or> img + bpr * r + 4 * c + 3 \<le> a) \<longrightarrow> mem' a = mem a)"
proof (induction "h - r0" arbitrary: r0 mem)
  case 0
  then have "\<not> r0 < h" by simp
  then show ?case by (subst row_loop.simps) auto
next
  case (Suc k)
  then have lt: "r0 < h" and k: "k = h - Suc r0" by simp_all
  from col_loop_total[of f "img + bpr * r0" w 0 mem, folded body_def] obtain m1 where
    run1: "col_loop body (img + bpr * r0) w 0 mem = Inr m1" and
    px1: "\<And>c. c < w \<Longrightarrow> load_rgb m1 (img + bpr * r0 + 4 * c) = f (load_rgb mem (img + bpr * r0 + 4 * c))" and
    fr1: "\<And>a. (\<forall>c. c < w \<longrightarrow> a < img + bpr * r0 + 4 * c \<or> img + bpr * r0 + 4 * c + 3 \<le> a) \<Longrightarrow> m1 a = mem a"
    by auto
  from Suc.hyps(1)[OF k, of m1] obtain mem' where
    run: "row_loop body img w h bpr (Suc r0) m1 = Inr mem'" and
    px: "\<And>r c. Suc r0 \<le> r \<Longrightarrow> r < h \<Longrightarrow> c < w \<Longrightarrow>
           load_rgb mem' (img + bpr * r + 4 * c) = f (load_rgb m1 (img + bpr * r + 4 * c))" and
    fr: "\<And>a. (\<forall>r c. Suc r0 \<le> r \<and> r < h \<and> c < w \<longrightarrow>
                a < img + bpr * r + 4 * c \<or> img + bpr * r + 4 * c + 3 \<le> a) \<Longrightarrow> mem' a = m1 a"
    by blast
  have step: "row_loop body img w h bpr r0 mem = row_loop body img w h bpr (Suc r0) m1"
    using lt run1 by (subst row_loop.simps) simp
  have below: "bpr * r0 + 4 * w \<le> bpr * r" if "Suc r0 \<le> r" for r
  proof -
    have "bpr * Suc r0 \<le> bpr * r" using that by (rule mult_le_mono2)
    then show ?thesis using stride by simp
  qed
  have here: "load_rgb mem' (img + bpr * r0 + 4 * c) = f (load_rgb mem (img + bpr * r0 + 4 * c))"
    if c: "c < w" for c
  proof -
    have "mem' (img + bpr * r0 + 4 * c + i) = m1 (img + bpr * r0 + 4 * c + i)" if "i < 3" for i
    proof (rule fr, intro allI impI)
      fix r c' assume "Suc r0 \<le> r \<and> r < h \<and> c' < w"
      then show "img + bpr * r0 + 4 * c + i < img + bpr * r + 4 * c' \<or>
                 img + bpr * r + 4 * c' + 3 \<le> img + bpr * r0 + 4 * c + i"
        using below[of r] c that by linarith
    qed
    from this[of 0] this[of 1] this[of 2]
    have "load_rgb mem' (img + bpr * r0 + 4 * c) = load_rgb m1 (img + bpr * r0 + 4 * c)"
      by (simp add: load_rgb_def)
    then show ?thesis using px1[OF c] by simp
  qed
  have later: "load_rgb mem' (img + bpr * r + 4 * c) = f (load_rgb mem (img + bpr * r + 4 * c))"
    if r: "Suc r0 \<le> r" "r < h" and c: "c < w" for r c
  proof -
    have "m1 (img + bpr * r + 4 * c + i) = mem (img + bpr * r + 4 * c + i)" for i
    proof (rule fr1, intro allI impI)
      fix c' assume "c' < w"
      then show "img + bpr * r + 4 * c + i < img + bpr * r0 + 4 * c' \<or>
                 img + bpr * r0 + 4 * c' + 3 \<le> img + bpr * r + 4 * c + i"
        using below[OF r(1)] by linarith
    qed
    from this[of 0] this[of 1] this[of 2]
    have "load_rgb m1 (img + bpr * r + 4 * c) = load_rgb mem (img + bpr * r + 4 * c)"
      by (simp add: load_rgb_def)
    then show ?thesis using px[OF r c] by simp
  qed
  have frame: "mem' a = mem a"
    if out: "\<forall>r c. r0 \<le> r \<and> r < h \<and> c < w \<longrightarrow>
               a < img + bpr * r + 4 * c \<or> img + bpr * r + 4 * c + 3 \<le> a" for a
  proof -
    have "mem' a = m1 a" using out by (intro fr) auto
    moreover have "m1 a = mem a" using out lt by (intro fr1) auto
    ultimately show ?thesis by simp
  qed
  show ?case
  proof (intro exI conjI allI impI)
    show "row_loop body img w h bpr r0 mem = Inr mem'" using step run by simp
  next
    fix r c assume "r0 \<le> r \<and> r < h \<and> c < w"
    then show "load_rgb mem' (img + bpr * r + 4 * c) = f (load_rgb mem (img + bpr * r + 4 * c))"
      using here[of c] later[of r c] by (cases "r = r0") auto
  next
    fix a assume "\<forall>r c. r0 \<le> r \<and> r < h \<and> c < w \<longrightarrow>
               a < img + bpr * r + 4 * c \<or> img + bpr * r + 4 * c + 3 \<le> a"
    then show "mem' a = mem a" by (rule frame)
  qed
qed

lemma stride_ok_effective: "stride_ok w bpr \<Longrightarrow> 4 * w \<le> effective_stride w bpr"
  by (auto simp add: stride_ok_def effective_stride_def)

lemma row_loop_scan:
  assumes "4 * w \<le> st"
  shows "total_scan f mem img w h st (row_loop (\<lambda>px. Inr (f px)) img w h st 0 mem)"
  using row_loop_total[OF assms, of f img h 0 mem]
  unfolding total_scan_def pixel_addr_def by simp

lemma brettel1997_scan:
  assumes "brettel_params_of E d = Some p" and "stride_ok w bpr"
  shows "total_scan (brettel1997_rgb E p s) mem img w h (effective_stride w bpr)
           (dl_simulate_cvd_brettel1997 E d s mem img w h bpr)"
proof -
  have b: "brettel1997_body E (Some p) s = (\<lambda>px. Inr (brettel1997_rgb E p s px))"
    by (rule ext) (simp add: brettel1997_body_def)
  have "dl_simulate_cvd_brettel1997 E d s mem img w h bpr =
          row_loop (\<lambda>px. Inr (brettel1997_rgb E p s px)) img w h (effective_stride w bpr) 0 mem"
    by (simp add: dl_simulate_cvd_brettel1997_def assms(1) b effective_stride_def)
  then show ?thesis
    using row_loop_scan[OF stride_ok_effective[OF assms(2)]] by simp
qed

lemma vienot1999_scan:
  assumes "vienot_matrix_of E d = Some m" and "stride_ok w bpr"
  shows "total_scan (vienot1999_rgb E m s) mem img w h (effective_stride w bpr)
           (dl_simulate_cvd_vienot1999 E d s mem img w h bpr)"
proof -
  have b: "vienot1999_body E (Some m) s = (\<lambda>px. Inr (vienot1999_rgb E m s px))"
    by (rule ext) (simp add: vienot1999_body_def)
  have "dl_simulate_cvd_vienot1999 E d s mem img w h bpr =
          row_loop (\<lambda>px. Inr (vienot1999_rgb E m s px)) img w h (effective_stride w bpr) 0 mem"
    by (simp add: dl_simulate_cvd_vienot1999_def assms(1) b effective_stride_def)
  then show ?thesis
    using row_loop_scan[OF stride_ok_effective[OF assms(2)]] by simp
qed

lemma valid_brettel_params: "valid_deficiency d \<Longrightarrow> \<exists>p. brettel_params_of E d = Some p"
  by (auto simp add: valid_deficiency_def brettel_params_of_def)

lemma valid_vienot_matrix: "valid_deficiency d \<Longrightarrow> \<exists>m. vienot_matrix_of E d = Some m"
  by (auto simp add: valid_deficiency_def vienot_matrix_of_def)

lemma next_row_above:
  fixes st :: nat
  assumes "row < row'"
  shows "st * row + st \<le> st * row'"
proof -
  have "st * Suc row \<le> st * row'" using assms by (intro mult_le_mono2) simp
  then show ?thesis by simp
qed

lemma alpha_not_colour:
  assumes "4 * w \<le> st" "c < w" "c' < w"
  shows "pixel_addr img st row c + 3 < pixel_addr img st row' c' \<or>
         pixel_addr img st row' c' + 3 \<le> pixel_addr img st row c + 3"
proof -
  consider "row < row'" | "row = row'" | "row' < row" by linarith
  then show ?thesis
  proof cases
    case 1
    from next_row_above[OF 1, of st] assms show ?thesis by (simp add: pixel_addr_def)
  next
    case 2
    then show ?thesis by (auto simp add: pixel_addr_def)
  next
    case 3
    from next_row_above[OF 3, of st] assms show ?thesis by (simp add: pixel_addr_def)
  qed
qed

lemma padding_not_colour:
  assumes "4 * w \<le> st" "4 * w \<le> k" "k < st" "c' < w"
  shows "img + st * row + k < pixel_addr img st row' c' \<or>
         pixel_addr img st row' c' + 3 \<le> img + st * row + k"
proof -
  consider "row < row'" | "row = row'" | "row' < row" by linarith
  then show ?thesis
  proof cases
    case 1
    from next_row_above[OF 1, of st] assms show ?thesis by (simp add: pixel_addr_def)
  next
    case 2
    then show ?thesis using assms by (auto simp add: pixel_addr_def)
  next
    case 3
    from next_row_above[OF 3, of st] assms show ?thesis by (simp add: pixel_addr_def)
  qed
qed

lemma scan_alpha:
  assumes "total_scan f mem img w h st result" and "4 * w \<le> st"
  shows "\<exists>mem'. result = Inr mem' \<and>
           (\<forall>row c. row < h \<and> c < w \<longrightarrow>
              mem' (pixel_addr img st row c + 3) = mem (pixel_addr img st row c + 3))"
proof -
  from assms(1) obtain mem' where r: "result = Inr mem'" and
    fr: "\<And>a. (\<forall>row c. row < h \<and> c < w \<longrightarrow>
                a < pixel_addr img st row c \<or> pixel_addr img st row c + 3 \<le> a) \<Longrightarrow> mem' a = mem a"
    unfolding total_scan_def by blast
  have "mem' (pixel_addr img st row c + 3) = mem (pixel_addr img st row c + 3)" if "c < w" for row c
    using alpha_not_colour[OF assms(2) that] by (intro fr) blast
  with r show ?thesis by blast
qed

lemma scan_padding:
  assumes "total_scan f mem img w h st result" and "4 * w \<le> st"
  shows "\<exists>mem'. result = Inr mem' \<and>
           (\<forall>row k. 4 * w \<le> k \<and> k < st \<longrightarrow> mem' (img + st * row + k) = mem (img + st * row + k))"
proof -
  from assms(1) obtain mem' where r: "result = Inr mem'" and
    fr: "\<And>a. (\<forall>row c. row < h \<and> c < w \<longrightarrow>
                a < pixel_addr img st row c \<or> pixel_addr img st row c + 3 \<le> a) \<Longrightarrow> mem' a = mem a"
    unfolding total_scan_def by blast
  have "mem' (img + st * row + k) = mem (img + st * row + k)" if "4 * w \<le> k" "k < st" for row k
    using padding_not_colour[OF assms(2) that] by (intro fr) blast
  with r show ?thesis by blast
qed

lemma dispatch_either:
  assumes "P (dl_simulate_cvd_brettel1997 E d s mem img w h bpr)"
    and "P (dl_simulate_cvd_vienot1999 E d s mem img w h bpr)"
  shows "P (dl_simulate_cvd E d s mem img w h bpr)"
  using assms by (cases "d = DLDeficiency_Tritan") (auto simp add: dl_simulate_cvd_def)

lemma scan_padding_kept:
  assumes "total_scan f mem img w h st result" and "4 * w \<le> st"
  shows "padding_kept mem img w st result"
  using scan_padding[OF assms] unfolding padding_kept_def by (simp add: mult.commute)

lemma stride_zero_brettel:
  "dl_simulate_cvd_brettel1997 E d s mem img w h 0 = dl_simulate_cvd_brettel1997 E d s mem img w h (w * 4)"
  by (simp add: dl_simulate_cvd_brettel1997_def)

lemma stride_zero_vienot:
  "dl_simulate_cvd_vienot1999 E d s mem img w h 0 = dl_simulate_cvd_vienot1999 E d s mem img w h (w * 4)"
  by (simp add: dl_simulate_cvd_vienot1999_def)

text \<open>Two pixels of the test image under the Vi\'enot transform for protanopia at full
  severity, in exact arithmetic.\<close>

lemma vienot_protan_pixels:
  "vienot1999_rgb exact_env (dl_vienot_protan_rgbCvd_from_rgb exact_env) 1 (10, 0, 0) = (1, 1, 0)"
  "vienot1999_rgb exact_env (dl_vienot_protan_rgbCvd_from_rgb exact_env) 1 (8, 10, 0) = (10, 10, 0)"
  by (simp_all add: vienot1999_rgb_def vienot1999_linear_def vienot1999_interpolate_def mat_vec_def
      decode_rgb_def encode_rgb_def linearRGB_from_sRGB_def sRGB_from_linearRGB_def
      dl_vienot_protan_rgbCvd_from_rgb_def exact_env_def trunc_uchar_def Let_def)

subsection \<open>Dispatch\<close>

lemma dispatch_if:
  "dl_simulate_cvd E d s mem img w h bpr =
     (if d = DLDeficiency_Tritan then dl_simulate_cvd_brettel1997 E d s mem img w h bpr
      else dl_simulate_cvd_vienot1999 E d s mem img w h bpr)"
  by (simp add: dl_simulate_cvd_def)

text \<open>
  Claim C1. For every severity and buffer with its geometry, \<^verbatim>\<open>dl_simulate_cvd\<close> called
  with Tritan returns what \<^verbatim>\<open>dl_simulate_cvd_brettel1997\<close> returns on the same
  arguments, and called with Protan or Deutan what \<^verbatim>\<open>dl_simulate_cvd_vienot1999\<close>
  returns: the resulting buffers are byte-identical.
\<close>

theorem dispatch_selects_algorithm:
  "dl_simulate_cvd E DLDeficiency_Tritan s mem img w h bpr =
     dl_simulate_cvd_brettel1997 E DLDeficiency_Tritan s mem img w h bpr \<and>
   dl_simulate_cvd E DLDeficiency_Protan s mem img w h bpr =
     dl_simulate_cvd_vienot1999 E DLDeficiency_Protan s mem img w h bpr \<and>
   dl_simulate_cvd E DLDeficiency_Deutan s mem img w h bpr =
     dl_simulate_cvd_vienot1999 E DLDeficiency_Deutan s mem img w h bpr"
  by (simp add: dl_simulate_cvd_def DLDeficiency_Protan_def DLDeficiency_Deutan_def
      DLDeficiency_Tritan_def)

subsection \<open>Alpha\<close>

text \<open>
  Claim C6. For every deficiency of the enumeration, every severity and every buffer whose
  stride is 0 or at least \<^verbatim>\<open>width * 4\<close>, each of the three entry points returns, and
  the fourth byte of every pixel is the same after the call as before it.
\<close>

theorem alpha_preserved:
  assumes "valid_deficiency d" and "stride_ok w bpr"
  shows "(\<exists>mem'. dl_simulate_cvd E d s mem img w h bpr = Inr mem' \<and>
            (\<forall>row c. row < h \<and> c < w \<longrightarrow>
               mem' (pixel_addr img (effective_stride w bpr) row c + 3) =
               mem (pixel_addr img (effective_stride w bpr) row c + 3))) \<and>
         (\<exists>mem'. dl_simulate_cvd_brettel1997 E d s mem img w h bpr = Inr mem' \<and>
            (\<forall>row c. row < h \<and> c < w \<longrightarrow>
               mem' (pixel_addr img (effective_stride w bpr) row c + 3) =
               mem (pixel_addr img (effective_stride w bpr) row c + 3))) \<and>
         (\<exists>mem'. dl_simulate_cvd_vienot1999 E d s mem img w h bpr = Inr mem' \<and>
            (\<forall>row c. row < h \<and> c < w \<longrightarrow>
               mem' (pixel_addr img (effective_stride w bpr) row c + 3) =
               mem (pixel_addr img (effective_stride w bpr) row c + 3)))"
proof -
  from valid_brettel_params[OF assms(1)] obtain p where p: "brettel_params_of E d = Some p" by blast
  from valid_vienot_matrix[OF assms(1)] obtain m where m: "vienot_matrix_of E d = Some m" by blast
  note st = stride_ok_effective[OF assms(2)]
  have B: "\<exists>mem'. dl_simulate_cvd_brettel1997 E d s mem img w h bpr = Inr mem' \<and>
            (\<forall>row c. row < h \<and> c < w \<longrightarrow>
               mem' (pixel_addr img (effective_stride w bpr) row c + 3) =
               mem (pixel_addr img (effective_stride w bpr) row c + 3))"
    by (rule scan_alpha[OF brettel1997_scan[OF p assms(2)] st])
  have V: "\<exists>mem'. dl_simulate_cvd_vienot1999 E d s mem img w h bpr = Inr mem' \<and>
            (\<forall>row c. row < h \<and> c < w \<longrightarrow>
               mem' (pixel_addr img (effective_stride w bpr) row c + 3) =
               mem (pixel_addr img (effective_stride w bpr) row c + 3))"
    by (rule scan_alpha[OF vienot1999_scan[OF m assms(2)] st])
  have D: "\<exists>mem'. dl_simulate_cvd E d s mem img w h bpr = Inr mem' \<and>
            (\<forall>row c. row < h \<and> c < w \<longrightarrow>
               mem' (pixel_addr img (effective_stride w bpr) row c + 3) =
               mem (pixel_addr img (effective_stride w bpr) row c + 3))"
    by (rule dispatch_either[where P = "\<lambda>r. \<exists>mem'. r = Inr mem' \<and>
            (\<forall>row c. row < h \<and> c < w \<longrightarrow>
               mem' (pixel_addr img (effective_stride w bpr) row c + 3) =
               mem (pixel_addr img (effective_stride w bpr) row c + 3))", OF B V])
  from D B V show ?thesis by blast
qed

theorem alpha_preserved_witness:
  "valid_deficiency DLDeficiency_Protan \<and> stride_ok 1 8 \<and>
   (\<exists>mem'. dl_simulate_cvd exact_env DLDeficiency_Protan 1 test_image 0 1 2 8 = Inr mem' \<and>
      mem' 3 = 255 \<and> mem' 11 = 128)"
proof -
  have v: "valid_deficiency DLDeficiency_Protan" by (simp add: valid_deficiency_def)
  have g: "stride_ok 1 8" by (simp add: stride_ok_def)
  from alpha_preserved[OF v g, of exact_env 1 test_image 0 2]
  obtain mem' where r: "dl_simulate_cvd exact_env DLDeficiency_Protan 1 test_image 0 1 2 8 = Inr mem'"
    and a: "\<And>row c. row < 2 \<and> c < 1 \<Longrightarrow>
              mem' (pixel_addr 0 (effective_stride 1 8) row c + 3) =
              test_image (pixel_addr 0 (effective_stride 1 8) row c + 3)"
    by blast
  from a[of 0 0] a[of 1 0] have "mem' 3 = 255 \<and> mem' 11 = 128"
    by (simp add: pixel_addr_def effective_stride_def test_image_def)
  with v g r show ?thesis by blast
qed

subsection \<open>A deficiency outside the enumeration\<close>

text \<open>A body that faults stops the walk at the first pixel, if there is one.\<close>

lemma row_loop_fault:
  "row_loop (\<lambda>px. Inl e) img w h st r mem = (if r < h \<and> 0 < w then Inl e else Inr mem)"
proof (induction "h - r" arbitrary: r)
  case 0
  then show ?case by (subst row_loop.simps) simp
next
  case (Suc k)
  then have lt: "r < h" and k: "k = h - (r + 1)" by simp_all
  show ?case
  proof (cases "0 < w")
    case True
    then have "col_loop (\<lambda>px. Inl e) (img + st * r) w 0 mem = Inl e"
      by (subst col_loop.simps) (simp add: pixel_step_def)
    then show ?thesis using lt True by (subst row_loop.simps) simp
  next
    case False
    then have "col_loop (\<lambda>px. Inl e) (img + st * r) w 0 mem = Inr mem"
      by (subst col_loop.simps) simp
    then have "row_loop (\<lambda>px. Inl e) img w h st r mem = row_loop (\<lambda>px. Inl e) img w h st (r + 1) mem"
      using lt by (subst row_loop.simps) simp
    then show ?thesis using Suc.hyps(1)[OF k] False by simp
  qed
qed

text \<open>
  Claim C9, as the code has it. No entry point checks the deficiency. For a value that is
  none of the three enumerators the parameter pointer stays \<^verbatim>\<open>NULL\<close>; when the image
  has no pixel (width or height 0) the call returns with the buffer unchanged, otherwise
  the computation of the first pixel dereferences the null pointer before any byte is
  written.
\<close>

theorem invalid_deficiency_unchecked:
  assumes "\<not> valid_deficiency d"
  shows "dl_simulate_cvd_brettel1997 E d s mem img w h bpr =
           (if 0 < h \<and> 0 < w then Inl NullPointer else Inr mem) \<and>
         dl_simulate_cvd_vienot1999 E d s mem img w h bpr =
           (if 0 < h \<and> 0 < w then Inl NullPointer else Inr mem) \<and>
         dl_simulate_cvd E d s mem img w h bpr =
           (if 0 < h \<and> 0 < w then Inl NullPointer else Inr mem)"
proof -
  from assms have p: "brettel_params_of E d = None" and m: "vienot_matrix_of E d = None"
    by (simp_all add: valid_deficiency_def brettel_params_of_def vienot_matrix_of_def)
  have b: "brettel1997_body E None s = (\<lambda>px. Inl NullPointer)"
    by (rule ext) (simp add: brettel1997_body_def)
  have v: "vienot1999_body E None s = (\<lambda>px. Inl NullPointer)"
    by (rule ext) (simp add: vienot1999_body_def)
  have B: "dl_simulate_cvd_brettel1997 E d s mem img w h bpr =
           (if 0 < h \<and> 0 < w then Inl NullPointer else Inr mem)"
    by (simp add: dl_simulate_cvd_brettel1997_def p b row_loop_fault)
  have V: "dl_simulate_cvd_vienot1999 E d s mem img w h bpr =
           (if 0 < h \<and> 0 < w then Inl NullPointer else Inr mem)"
    by (simp add: dl_simulate_cvd_vienot1999_def m v row_loop_fault)
  have D: "dl_simulate_cvd E d s mem img w h bpr =
           (if 0 < h \<and> 0 < w then Inl NullPointer else Inr mem)"
    by (rule dispatch_either[where P = "\<lambda>r. r = (if 0 < h \<and> 0 < w then Inl NullPointer else Inr mem)", OF B V])
  from B V D show ?thesis by blast
qed

theorem invalid_deficiency_unchecked_witness:
  "\<not> valid_deficiency 3 \<and>
   dl_simulate_cvd_brettel1997 exact_env 3 1 test_image 0 1 2 8 = Inl NullPointer \<and>
   dl_simulate_cvd_vienot1999 exact_env 3 1 test_image 0 0 2 8 = Inr test_image"
proof -
  have n: "\<not> valid_deficiency 3"
    by (simp add: valid_deficiency_def DLDeficiency_Protan_def DLDeficiency_Deutan_def DLDeficiency_Tritan_def)
  from invalid_deficiency_unchecked[OF n, of exact_env 1 test_image 0 1 2 8]
    invalid_deficiency_unchecked[OF n, of exact_env 1 test_image 0 0 2 8] n
  show ?thesis by simp
qed

text \<open>
  Claim C9, as stated, fails: with the deficiency value 3 and an image of height 0 each
  entry point returns normally instead of failing.
\<close>

theorem invalid_deficiency_returns_counterexample:
  "\<not> valid_deficiency 3 \<and>
   \<not> isl (dl_simulate_cvd exact_env 3 1 test_image 0 1 0 0) \<and>
   \<not> isl (dl_simulate_cvd_brettel1997 exact_env 3 1 test_image 0 1 0 0) \<and>
   \<not> isl (dl_simulate_cvd_vienot1999 exact_env 3 1 test_image 0 1 0 0)"
proof -
  have n: "\<not> valid_deficiency 3"
    by (simp add: valid_deficiency_def DLDeficiency_Protan_def DLDeficiency_Deutan_def DLDeficiency_Tritan_def)
  have r: "row_loop body img w 0 st 0 m = Inr m" for body img w st m
    by (subst row_loop.simps) simp
  show ?thesis using n
    by (simp add: dl_simulate_cvd_def dl_simulate_cvd_brettel1997_def dl_simulate_cvd_vienot1999_def r
        DLDeficiency_Tritan_def)
qed

subsection \<open>The buffer walk of the entry points\<close>

text \<open>
  Claim C7. For a deficiency of the enumeration and a stride that is 0 or at least
  \<^verbatim>\<open>width * 4\<close>, every entry point treats the stride 0 as \<^verbatim>\<open>width * 4\<close>, returns,
  and leaves a buffer in which the colour bytes of each of the \<^verbatim>\<open>width * height\<close>
  pixels are the per-pixel transform applied once to the bytes that were there, and every
  other byte (alpha bytes, the padding between \<^verbatim>\<open>width * 4\<close> and the stride, anything
  outside the image) is unchanged. The witness runs a 1 by 1 buffer and a buffer whose
  stride exceeds \<^verbatim>\<open>width * 4\<close>.
\<close>

theorem buffer_walk:
  assumes "valid_deficiency d" and "stride_ok w bpr"
  shows "\<exists>p m. brettel_params_of E d = Some p \<and> vienot_matrix_of E d = Some m \<and>
     total_scan (brettel1997_rgb E p s) mem img w h (effective_stride w bpr)
       (dl_simulate_cvd_brettel1997 E d s mem img w h bpr) \<and>
     total_scan (vienot1999_rgb E m s) mem img w h (effective_stride w bpr)
       (dl_simulate_cvd_vienot1999 E d s mem img w h bpr) \<and>
     total_scan (if d = DLDeficiency_Tritan then brettel1997_rgb E p s else vienot1999_rgb E m s)
       mem img w h (effective_stride w bpr) (dl_simulate_cvd E d s mem img w h bpr) \<and>
     padding_kept mem img w (effective_stride w bpr) (dl_simulate_cvd_brettel1997 E d s mem img w h bpr) \<and>
     padding_kept mem img w (effective_stride w bpr) (dl_simulate_cvd_vienot1999 E d s mem img w h bpr) \<and>
     padding_kept mem img w (effective_stride w bpr) (dl_simulate_cvd E d s mem img w h bpr) \<and>
     dl_simulate_cvd_brettel1997 E d s mem img w h 0 = dl_simulate_cvd_brettel1997 E d s mem img w h (w * 4) \<and>
     dl_simulate_cvd_vienot1999 E d s mem img w h 0 = dl_simulate_cvd_vienot1999 E d s mem img w h (w * 4) \<and>
     dl_simulate_cvd E d s mem img w h 0 = dl_simulate_cvd E d s mem img w h (w * 4)"
proof -
  from valid_brettel_params[OF assms(1)] obtain p where p: "brettel_params_of E d = Some p" by blast
  from valid_vienot_matrix[OF assms(1)] obtain m where m: "vienot_matrix_of E d = Some m" by blast
  note st = stride_ok_effective[OF assms(2)]
  note B = brettel1997_scan[OF p assms(2), of s mem img h]
  note V = vienot1999_scan[OF m assms(2), of s mem img h]
  have D: "total_scan (if d = DLDeficiency_Tritan then brettel1997_rgb E p s else vienot1999_rgb E m s)
       mem img w h (effective_stride w bpr) (dl_simulate_cvd E d s mem img w h bpr)"
    using B V by (cases "d = DLDeficiency_Tritan") (auto simp add: dl_simulate_cvd_def)
  have Z: "dl_simulate_cvd E d s mem img w h 0 = dl_simulate_cvd E d s mem img w h (w * 4)"
    by (simp add: dl_simulate_cvd_def stride_zero_brettel stride_zero_vienot)
  from p m B V D scan_padding_kept[OF B st] scan_padding_kept[OF V st] scan_padding_kept[OF D st]
    stride_zero_brettel stride_zero_vienot Z
  show ?thesis by blast
qed

theorem buffer_walk_witness:
  "valid_deficiency DLDeficiency_Protan \<and> stride_ok 1 8 \<and> stride_ok 1 0 \<and>
   (\<exists>mem'. dl_simulate_cvd_vienot1999 exact_env DLDeficiency_Protan 1 test_image 0 1 2 8 = Inr mem' \<and>
      load_rgb mem' 0 = (1, 1, 0) \<and> load_rgb mem' 8 = (10, 10, 0) \<and>
      mem' 3 = 255 \<and> mem' 4 = 7 \<and> mem' 7 = 7 \<and> mem' 11 = 128 \<and> mem' 12 = 9 \<and> mem' 15 = 9) \<and>
   (\<exists>mem'. dl_simulate_cvd exact_env DLDeficiency_Protan 1 test_image 0 1 1 0 = Inr mem' \<and>
      load_rgb mem' 0 = (1, 1, 0) \<and> mem' 3 = 255 \<and> load_rgb mem' 8 = (8, 10, 0))"
proof -
  have v: "valid_deficiency DLDeficiency_Protan" by (simp add: valid_deficiency_def)
  have g8: "stride_ok 1 8" and g0: "stride_ok 1 0" by (simp_all add: stride_ok_def)
  have mp: "vienot_matrix_of exact_env DLDeficiency_Protan = Some (dl_vienot_protan_rgbCvd_from_rgb exact_env)"
    by (simp add: vienot_matrix_of_def)
  have nt: "DLDeficiency_Protan \<noteq> DLDeficiency_Tritan"
    by (simp add: DLDeficiency_Protan_def DLDeficiency_Tritan_def)
  have ti: "load_rgb test_image 0 = (10, 0, 0)" "load_rgb test_image 8 = (8, 10, 0)"
    "test_image 3 = 255" "test_image 4 = 7" "test_image 7 = 7" "test_image 11 = 128"
    "test_image 12 = 9" "test_image 15 = 9"
    by (simp_all add: test_image_def load_rgb_def)
  from buffer_walk[OF v g8, of exact_env 1 test_image 0 2] mp
  have s8: "total_scan (vienot1999_rgb exact_env (dl_vienot_protan_rgbCvd_from_rgb exact_env) 1)
              test_image 0 1 2 8 (dl_simulate_cvd_vienot1999 exact_env DLDeficiency_Protan 1 test_image 0 1 2 8)"
    by (auto simp add: effective_stride_def)
  then obtain m8 where r8: "dl_simulate_cvd_vienot1999 exact_env DLDeficiency_Protan 1 test_image 0 1 2 8 = Inr m8"
    and px8: "\<And>row c. row < 2 \<and> c < 1 \<Longrightarrow> load_rgb m8 (pixel_addr 0 8 row c) =
                vienot1999_rgb exact_env (dl_vienot_protan_rgbCvd_from_rgb exact_env) 1
                  (load_rgb test_image (pixel_addr 0 8 row c))"
    and fr8: "\<And>a. (\<forall>row c. row < 2 \<and> c < 1 \<longrightarrow> a < pixel_addr 0 8 row c \<or> pixel_addr 0 8 row c + 3 \<le> a)
                \<Longrightarrow> m8 a = test_image a"
    unfolding total_scan_def by blast
  have out8: "\<forall>row c. row < 2 \<and> c < 1 \<longrightarrow> a < pixel_addr 0 8 row c \<or> pixel_addr 0 8 row c + 3 \<le> a"
    if "a \<in> {3, 4, 7, 11, 12, 15}" for a :: nat
  proof (intro allI impI)
    fix row c :: nat assume "row < 2 \<and> c < 1"
    then have "(row = 0 \<or> row = 1) \<and> c = 0" by auto
    with that show "a < pixel_addr 0 8 row c \<or> pixel_addr 0 8 row c + 3 \<le> a"
      by (auto simp add: pixel_addr_def)
  qed
  have c8: "load_rgb m8 0 = (1, 1, 0) \<and> load_rgb m8 8 = (10, 10, 0) \<and>
      m8 3 = 255 \<and> m8 4 = 7 \<and> m8 7 = 7 \<and> m8 11 = 128 \<and> m8 12 = 9 \<and> m8 15 = 9"
    using px8[of 0 0] px8[of 1 0] fr8[OF out8, of 3] fr8[OF out8, of 4] fr8[OF out8, of 7]
      fr8[OF out8, of 11] fr8[OF out8, of 12] fr8[OF out8, of 15]
    by (simp add: pixel_addr_def ti vienot_protan_pixels)
  from buffer_walk[OF v g0, of exact_env 1 test_image 0 1] mp nt
  have s0: "total_scan (vienot1999_rgb exact_env (dl_vienot_protan_rgbCvd_from_rgb exact_env) 1)
              test_image 0 1 1 4 (dl_simulate_cvd exact_env DLDeficiency_Protan 1 test_image 0 1 1 0)"
    by (auto simp add: effective_stride_def)
  then obtain m0 where r0: "dl_simulate_cvd exact_env DLDeficiency_Protan 1 test_image 0 1 1 0 = Inr m0"
    and px0: "\<And>row c. row < 1 \<and> c < 1 \<Longrightarrow> load_rgb m0 (pixel_addr 0 4 row c) =
                vienot1999_rgb exact_env (dl_vienot_protan_rgbCvd_from_rgb exact_env) 1
                  (load_rgb test_image (pixel_addr 0 4 row c))"
    and fr0: "\<And>a. (\<forall>row c. row < 1 \<and> c < 1 \<longrightarrow> a < pixel_addr 0 4 row c \<or> pixel_addr 0 4 row c + 3 \<le> a)
                \<Longrightarrow> m0 a = test_image a"
    unfolding total_scan_def by blast
  have out0: "\<forall>row c. row < 1 \<and> c < 1 \<longrightarrow> a < pixel_addr 0 4 row c \<or> pixel_addr 0 4 row c + 3 \<le> a"
    if "3 \<le> a" for a :: nat
    using that by (auto simp add: pixel_addr_def)
  have c0: "load_rgb m0 0 = (1, 1, 0) \<and> m0 3 = 255 \<and> load_rgb m0 8 = (8, 10, 0)"
    using px0[of 0 0] fr0[OF out0, of 3] fr0[OF out0, of 8] fr0[OF out0, of 9] fr0[OF out0, of 10] ti
    by (simp add: pixel_addr_def vienot_protan_pixels load_rgb_def)
  from v g8 g0 r8 c8 r0 c0 show ?thesis by blast
qed

subsection \<open>Brettel: the choice of the half-plane\<close>

text \<open>The dot products and the outputs of the two pixels of \<open>plane_image\<close> for tritanopia
  at full severity, in exact arithmetic, with either matrix.\<close>

lemma tritan_dot:
  "dotWithSepPlane (brettel_tritan_params exact_env) (decode_rgb exact_env (10, 10, 10)) = 0"
  "dotWithSepPlane (brettel_tritan_params exact_env) (decode_rgb exact_env (0, 5, 0)) < 0"
  by (simp_all add: dotWithSepPlane_def brettel_tritan_params_def decode_rgb_def
      linearRGB_from_sRGB_def exact_env_def Let_def)

lemma tritan_plane_pixels:
  "encode_rgb exact_env (brettel1997_interpolate exact_env
     (mat_vec (rgbCvdFromRgb_1 (brettel_tritan_params exact_env)) (decode_rgb exact_env (10, 10, 10)))
     1 (decode_rgb exact_env (10, 10, 10))) = (10, 10, 10)"
  "encode_rgb exact_env (brettel1997_interpolate exact_env
     (mat_vec (rgbCvdFromRgb_2 (brettel_tritan_params exact_env)) (decode_rgb exact_env (0, 5, 0)))
     1 (decode_rgb exact_env (0, 5, 0))) = (1, 4, 6)"
  "encode_rgb exact_env (brettel1997_interpolate exact_env
     (mat_vec (rgbCvdFromRgb_1 (brettel_tritan_params exact_env)) (decode_rgb exact_env (0, 5, 0)))
     1 (decode_rgb exact_env (0, 5, 0))) = (1, 4, 4)"
  by (simp_all add: brettel1997_interpolate_def mat_vec_def
      decode_rgb_def encode_rgb_def linearRGB_from_sRGB_def sRGB_from_linearRGB_def
      brettel_tritan_params_def exact_env_def trunc_uchar_def Let_def)

text \<open>
  Claim C5. In the Brettel transform, for every pixel of the buffer, the bytes written are
  those computed with the plane-1 matrix when the dot product of the decoded linear RGB
  vector with the separation plane normal satisfies \<^verbatim>\<open>dotWithSepPlane >= 0\<close>, and with the
  plane-2 matrix otherwise. The witness has a pixel whose dot product is exactly 0 (plane
  1) and one whose dot product is negative (plane 2, with an output that plane 1 would
  not give).
\<close>

theorem brettel_plane_selection:
  assumes "valid_deficiency d" and "stride_ok w bpr"
  shows "\<exists>p mem'. brettel_params_of E d = Some p \<and>
      dl_simulate_cvd_brettel1997 E d s mem img w h bpr = Inr mem' \<and>
      (\<forall>row c. row < h \<and> c < w \<longrightarrow>
         load_rgb mem' (pixel_addr img (effective_stride w bpr) row c) =
           encode_rgb E (brettel1997_interpolate E
             (mat_vec
               (if f_of_int E 0 \<le> dotWithSepPlane p
                     (decode_rgb E (load_rgb mem (pixel_addr img (effective_stride w bpr) row c)))
                then rgbCvdFromRgb_1 p else rgbCvdFromRgb_2 p)
               (decode_rgb E (load_rgb mem (pixel_addr img (effective_stride w bpr) row c))))
             s (decode_rgb E (load_rgb mem (pixel_addr img (effective_stride w bpr) row c)))))"
proof -
  from valid_brettel_params[OF assms(1)] obtain p where p: "brettel_params_of E d = Some p" by blast
  from brettel1997_scan[OF p assms(2), of s mem img h] p show ?thesis
    unfolding total_scan_def brettel1997_rgb_def brettel1997_linear_def rgbCvdFromRgb_def by blast
qed

theorem brettel_plane_selection_witness:
  "valid_deficiency DLDeficiency_Tritan \<and> stride_ok 2 0 \<and>
   dotWithSepPlane (brettel_tritan_params exact_env) (decode_rgb exact_env (10, 10, 10)) = 0 \<and>
   dotWithSepPlane (brettel_tritan_params exact_env) (decode_rgb exact_env (0, 5, 0)) < 0 \<and>
   (\<exists>mem'. dl_simulate_cvd_brettel1997 exact_env DLDeficiency_Tritan 1 plane_image 0 2 1 0 = Inr mem' \<and>
      load_rgb mem' 0 = (10, 10, 10) \<and> load_rgb mem' 4 = (1, 4, 6))"
proof -
  have v: "valid_deficiency DLDeficiency_Tritan" by (simp add: valid_deficiency_def)
  have g: "stride_ok 2 0" by (simp add: stride_ok_def)
  have pt: "brettel_params_of exact_env DLDeficiency_Tritan = Some (brettel_tritan_params exact_env)"
    by (simp add: brettel_params_of_def DLDeficiency_Protan_def DLDeficiency_Deutan_def
        DLDeficiency_Tritan_def)
  have z: "f_of_int exact_env 0 = 0" by (simp add: exact_env_def)
  have pi: "load_rgb plane_image 0 = (10, 10, 10)" "load_rgb plane_image 4 = (0, 5, 0)"
    by (simp_all add: plane_image_def load_rgb_def)
  from brettel_plane_selection[OF v g, of exact_env 1 plane_image 0 1] pt
  obtain mem' where r: "dl_simulate_cvd_brettel1997 exact_env DLDeficiency_Tritan 1 plane_image 0 2 1 0 = Inr mem'"
    and px: "\<And>row c. row < 1 \<and> c < 2 \<Longrightarrow>
       load_rgb mem' (pixel_addr 0 (effective_stride 2 0) row c) =
           encode_rgb exact_env (brettel1997_interpolate exact_env
             (mat_vec
               (if f_of_int exact_env 0 \<le> dotWithSepPlane (brettel_tritan_params exact_env)
                     (decode_rgb exact_env (load_rgb plane_image (pixel_addr 0 (effective_stride 2 0) row c)))
                then rgbCvdFromRgb_1 (brettel_tritan_params exact_env)
                else rgbCvdFromRgb_2 (brettel_tritan_params exact_env))
               (decode_rgb exact_env (load_rgb plane_image (pixel_addr 0 (effective_stride 2 0) row c))))
             1 (decode_rgb exact_env (load_rgb plane_image (pixel_addr 0 (effective_stride 2 0) row c))))"
    by auto
  have "load_rgb mem' 0 = (10, 10, 10) \<and> load_rgb mem' 4 = (1, 4, 6)"
    using px[of 0 0] px[of 0 1] tritan_dot
    by (simp add: pixel_addr_def effective_stride_def pi z tritan_plane_pixels)
  with v g r tritan_dot show ?thesis by blast
qed

subsection \<open>The encoder\<close>

text \<open>Bounds on a real power with a rational exponent, from integer powers.\<close>

lemma powr_ratio_bounds:
  fixes a lo hi :: real and p q :: nat
  assumes a: "0 < a" and q: "0 < q" and lo: "0 \<le> lo" "lo ^ q < a ^ p" and hi: "0 \<le> hi" "a ^ p < hi ^ q"
  shows "lo < a powr (real p / real q) \<and> a powr (real p / real q) < hi"
proof -
  let ?x = "a powr (real p / real q)"
  have x0: "0 < ?x" using a by simp
  have "?x ^ q = ?x powr real q" using x0 by (simp add: powr_realpow)
  also have "\<dots> = a powr (real p / real q * real q)" by (simp add: powr_powr)
  also have "\<dots> = a powr real p" using q by simp
  also have "\<dots> = a ^ p" using a by (simp add: powr_realpow)
  finally have xq: "?x ^ q = a ^ p" .
  have "lo < ?x"
  proof (rule ccontr)
    assume "\<not> lo < ?x"
    then have "?x ^ q \<le> lo ^ q" using x0 by (intro power_mono) simp_all
    with xq lo(2) show False by simp
  qed
  moreover have "?x < hi"
  proof (rule ccontr)
    assume "\<not> ?x < hi"
    then have "hi ^ q \<le> ?x ^ q" using hi(1) by (intro power_mono) simp_all
    with xq hi(2) show False by simp
  qed
  ultimately show ?thesis by simp
qed

lemma quarter_powr: "0.561 < (1/4 :: real) powr (1 / 2.4) \<and> (1/4 :: real) powr (1 / 2.4) < 0.5613"
proof -
  have e: "(1 / 2.4 :: real) = real 5 / real 12" by simp
  show ?thesis unfolding e by (rule powr_ratio_bounds) (simp_all add: power_divide)
qed

lemma trunc_uchar_between:
  assumes "real_of_int n \<le> x" "x < real_of_int n + 1" "0 \<le> n"
  shows "trunc_uchar x = word_of_int n"
proof -
  have "\<lfloor>x\<rfloor> = n" using assms by linarith
  moreover have "0 \<le> x" using assms by linarith
  ultimately show ?thesis by (simp add: trunc_uchar_def)
qed

text \<open>In the first three branches the encoder is the one the specification words.\<close>

lemma encoder_agrees_outside_powf_branch:
  "v \<le> flit E 0 \<or> flit E 1 \<le> v \<or> v < flit E 0.0031308 \<Longrightarrow>
     sRGB_from_linearRGB E v = spec_toEncoded E v"
  by (auto simp add: sRGB_from_linearRGB_def spec_toEncoded_def)

text \<open>
  Claim C2 says that the encoder adds 0.5 and truncates in every branch. The fourth branch
  adds \<^verbatim>\<open>0.f\<close>: at the linear value 0.25, in exact arithmetic, the power is about
  0.56123 and \<^verbatim>\<open>255 * (powf(v, 1/2.4) * 1.055 - 0.055)\<close> about 136.96, which the code
  truncates to 136, while adding 0.5 first gives 137.
\<close>

theorem encoder_powf_branch_truncates:
  "sRGB_from_linearRGB exact_env (1/4) = 136 \<and> spec_toEncoded exact_env (1/4) = 137"
proof -
  let ?x = "(1/4 :: real) powr (1 / 2.4)"
  from quarter_powr have b: "0.561 < ?x" "?x < 0.5613" by simp_all
  have code: "trunc_uchar (0 + 255 * (?x * 1.055 - 0.055)) = word_of_int 136"
    using b by (intro trunc_uchar_between) simp_all
  have spec: "trunc_uchar (0.5 + 255 * (1.055 * ?x - 0.055)) = word_of_int 137"
    using b by (intro trunc_uchar_between) simp_all
  have "sRGB_from_linearRGB exact_env (1/4) = trunc_uchar (0 + 255 * (?x * 1.055 - 0.055))"
    by (simp add: sRGB_from_linearRGB_def exact_env_def)
  moreover have "spec_toEncoded exact_env (1/4) = trunc_uchar (0.5 + 255 * (1.055 * ?x - 0.055))"
    by (simp add: spec_toEncoded_def exact_env_def)
  ultimately show ?thesis using code spec by simp
qed

subsection \<open>Severity as an interpolation\<close>







subsection \<open>The two formulations of Brettel 1997\<close>




lemma lms_tables_not_inverse:
  "mat_mul (linearRGB_from_LMS exact_env) (LMS_from_linearRGB exact_env) \<noteq> identity3"
  by (simp add: mat_mul_def identity3_def linearRGB_from_LMS_def LMS_from_linearRGB_def exact_env_def)

lemma inverse_rows:
  assumes "mat_mul B A = identity3"
  shows "B ! 0 * A ! 0 + B ! 1 * A ! 3 + B ! 2 * A ! 6 = 1"
    "B ! 0 * A ! 1 + B ! 1 * A ! 4 + B ! 2 * A ! 7 = 0"
    "B ! 0 * A ! 2 + B ! 1 * A ! 5 + B ! 2 * A ! 8 = 0"
    "B ! 3 * A ! 0 + B ! 4 * A ! 3 + B ! 5 * A ! 6 = 0"
    "B ! 3 * A ! 1 + B ! 4 * A ! 4 + B ! 5 * A ! 7 = 1"
    "B ! 3 * A ! 2 + B ! 4 * A ! 5 + B ! 5 * A ! 8 = 0"
    "B ! 6 * A ! 0 + B ! 7 * A ! 3 + B ! 8 * A ! 6 = 0"
    "B ! 6 * A ! 1 + B ! 7 * A ! 4 + B ! 8 * A ! 7 = 0"
    "B ! 6 * A ! 2 + B ! 7 * A ! 5 + B ! 8 * A ! 8 = 1"
  using assms by (simp_all add: mat_mul_def identity3_def)

lemma back_to_rgb:
  assumes "mat_mul B A = identity3"
  shows "mat_vec B (mat_vec A rgb) = [rgb ! 0, rgb ! 1, rgb ! 2]"
proof -
  have "mat_vec B (mat_vec A rgb) =
     [(B ! 0 * A ! 0 + B ! 1 * A ! 3 + B ! 2 * A ! 6) * rgb ! 0
        + (B ! 0 * A ! 1 + B ! 1 * A ! 4 + B ! 2 * A ! 7) * rgb ! 1
        + (B ! 0 * A ! 2 + B ! 1 * A ! 5 + B ! 2 * A ! 8) * rgb ! 2,
      (B ! 3 * A ! 0 + B ! 4 * A ! 3 + B ! 5 * A ! 6) * rgb ! 0
        + (B ! 3 * A ! 1 + B ! 4 * A ! 4 + B ! 5 * A ! 7) * rgb ! 1
        + (B ! 3 * A ! 2 + B ! 4 * A ! 5 + B ! 5 * A ! 8) * rgb ! 2,
      (B ! 6 * A ! 0 + B ! 7 * A ! 3 + B ! 8 * A ! 6) * rgb ! 0
        + (B ! 6 * A ! 1 + B ! 7 * A ! 4 + B ! 8 * A ! 7) * rgb ! 1
        + (B ! 6 * A ! 2 + B ! 7 * A ! 5 + B ! 8 * A ! 8) * rgb ! 2]"
    by (simp add: mat_vec_def algebra_simps)
  also have "\<dots> = [1 * rgb ! 0 + 0 * rgb ! 1 + 0 * rgb ! 2,
      0 * rgb ! 0 + 1 * rgb ! 1 + 0 * rgb ! 2,
      0 * rgb ! 0 + 0 * rgb ! 1 + 1 * rgb ! 2]"
    by (simp only: inverse_rows[OF assms])
  also have "\<dots> = [rgb ! 0, rgb ! 1, rgb ! 2]" by simp
  finally show ?thesis .
qed

lemma projected_in_rgb:
  fixes A B p rgb :: "real list" and s :: real
  assumes k: "k < 3"
  shows "mat_vec B ((mat_vec A rgb)[k :=
           (p ! 0 * mat_vec A rgb ! 0 + p ! 1 * mat_vec A rgb ! 1 + p ! 2 * mat_vec A rgb ! 2) * s
           + mat_vec A rgb ! k * (1 - s)]) =
         [mat_vec (mat_mul B (mat_mul (projection_matrix k p) A)) rgb ! 0 * s
            + mat_vec B (mat_vec A rgb) ! 0 * (1 - s),
          mat_vec (mat_mul B (mat_mul (projection_matrix k p) A)) rgb ! 1 * s
            + mat_vec B (mat_vec A rgb) ! 1 * (1 - s),
          mat_vec (mat_mul B (mat_mul (projection_matrix k p) A)) rgb ! 2 * s
            + mat_vec B (mat_vec A rgb) ! 2 * (1 - s)]"
proof -
  from k consider "k = 0" | "k = 1" | "k = 2" by linarith
  then show ?thesis
  proof cases
    case 1
    then show ?thesis
      by (simp add: mat_vec_def mat_mul_def projection_matrix_def algebra_simps)
  next
    case 2
    then show ?thesis
      by (simp add: mat_vec_def mat_mul_def projection_matrix_def algebra_simps)
  next
    case 3
    then show ?thesis
      by (simp add: mat_vec_def mat_mul_def projection_matrix_def algebra_simps)
  qed
qed


lemma exact_env_simps:
  "flit exact_env x = x" "dlit exact_env x = x" "f_of_d exact_env x = x" "d_of_f exact_env x = x"
  "f_of_int exact_env i = real_of_int i"
  by (simp_all add: exact_env_def)

text \<open>
  The rearrangement itself is sound. In exact arithmetic, for tables that are exactly
  related (\<^verbatim>\<open>linearRGB_from_LMS\<close> times \<^verbatim>\<open>LMS_from_linearRGB\<close> is the identity and the
  combined parameters are the products the comments of the parameter record describe),
  the explicit-LMS loop body and the combined-matrix loop body compute the same linear
  RGB for every severity and every pixel. The five-digit tables of the repository are not
  exactly related in this way (\<open>lms_tables_not_inverse\<close>).
\<close>

lemma exact_tables_agree:
  assumes inv: "mat_mul rgb_from_lms lms_from_rgb = identity3"
    and k: "lmsElementToProject params < 3"
  shows "brettel1997_lms_linear exact_env lms_from_rgb rgb_from_lms params severity rgb =
         brettel1997_linear exact_env (combined_params lms_from_rgb rgb_from_lms params) severity rgb"
proof -
  let ?lms = "mat_vec lms_from_rgb rgb"
  let ?c = "combined_params lms_from_rgb rgb_from_lms params"
  let ?k = "lmsElementToProject params"
  let ?dot = "?lms ! 0 * separationPlaneNormal params ! 0 + ?lms ! 1 * separationPlaneNormal params ! 1
              + ?lms ! 2 * separationPlaneNormal params ! 2"
  let ?p = "if 0 \<le> ?dot then projectionOnPlane1 params else projectionOnPlane2 params"
  have dot: "dotWithSepPlane ?c rgb = ?dot"
    by (simp add: dotWithSepPlane_def combined_params_def Let_def mat_vec_def vec_mat_def
        algebra_simps)
  have inv_rgb: "mat_vec rgb_from_lms ?lms ! 0 = rgb ! 0" "mat_vec rgb_from_lms ?lms ! 1 = rgb ! 1"
    "mat_vec rgb_from_lms ?lms ! 2 = rgb ! 2"
    by (simp_all add: back_to_rgb[OF inv])
  have step: "mat_vec rgb_from_lms (?lms[?k :=
           (p ! 0 * ?lms ! 0 + p ! 1 * ?lms ! 1 + p ! 2 * ?lms ! 2) * severity
           + ?lms ! ?k * (1 - severity)]) =
         brettel1997_interpolate exact_env
           (mat_vec (mat_mul rgb_from_lms (mat_mul (projection_matrix ?k p) lms_from_rgb)) rgb)
           severity rgb" for p
    unfolding projected_in_rgb[OF k] inv_rgb
    by (simp add: brettel1997_interpolate_def exact_env_simps)
  have L: "brettel1997_lms_linear exact_env lms_from_rgb rgb_from_lms params severity rgb =
      mat_vec rgb_from_lms (?lms[?k :=
           (?p ! 0 * ?lms ! 0 + ?p ! 1 * ?lms ! 1 + ?p ! 2 * ?lms ! 2) * severity
           + ?lms ! ?k * (1 - severity)])"
    unfolding brettel1997_lms_linear_def Let_def exact_env_simps by simp
  have R: "brettel1997_linear exact_env ?c severity rgb =
      brettel1997_interpolate exact_env
        (mat_vec (mat_mul rgb_from_lms (mat_mul (projection_matrix ?k ?p) lms_from_rgb)) rgb)
        severity rgb"
    unfolding brettel1997_linear_def rgbCvdFromRgb_def dot exact_env_simps
    by (simp add: combined_params_def)
  show ?thesis unfolding L R by (rule step)
qed

lemma scaling_tables_agree:
  "mat_mul scaling_rgb_from_lms scaling_lms_from_rgb = identity3 \<and>
   lmsElementToProject scaling_params < 3 \<and>
   brettel1997_lms_linear exact_env scaling_lms_from_rgb scaling_rgb_from_lms scaling_params (1 / 2)
       [1 / 10, 2 / 10, 3 / 10] =
     brettel1997_linear exact_env
       (combined_params scaling_lms_from_rgb scaling_rgb_from_lms scaling_params) (1 / 2)
       [1 / 10, 2 / 10, 3 / 10] \<and>
   brettel1997_lms_linear exact_env scaling_lms_from_rgb scaling_rgb_from_lms scaling_params (1 / 2)
       [1 / 10, 2 / 10, 3 / 10] = [1 / 10, 2 / 10, 81 / 500]"
proof -
  have i: "mat_mul scaling_rgb_from_lms scaling_lms_from_rgb = identity3"
    by (simp add: mat_mul_def scaling_rgb_from_lms_def scaling_lms_from_rgb_def identity3_def)
  have k: "lmsElementToProject scaling_params < 3" by (simp add: scaling_params_def)
  have v: "brettel1997_lms_linear exact_env scaling_lms_from_rgb scaling_rgb_from_lms scaling_params (1 / 2)
       [1 / 10, 2 / 10, 3 / 10] = [1 / 10, 2 / 10, 81 / 500]"
    by (simp add: brettel1997_lms_linear_def scaling_rgb_from_lms_def scaling_lms_from_rgb_def
        scaling_params_def mat_vec_def exact_env_simps Let_def)
  from i k v exact_tables_agree[OF i k, of "1 / 2" "[1 / 10, 2 / 10, 3 / 10]"]
  show ?thesis by blast
qed



subsection \<open>Rounding in the codec\<close>

text \<open>Exact arithmetic is a platform in the sense of \<open>ieee_like\<close>.\<close>

lemma exact_env_ieee_like: "ieee_like exact_env"
  unfolding ieee_like_def float_arith_def float_exact_def float_order_def float_convert_def
    double_arith_def rounds_def near_def
  by (simp add: exact_env_def trunc_uchar_def)

text \<open>Relative enclosures and how they compose.\<close>

lemma close_near:
  assumes "near x y" and "0 \<le> y"
  shows "rel_close (1 / 10 ^ 6) x y"
proof -
  from assms have a: "\<bar>x - y\<bar> \<le> y / 10 ^ 6" by (simp add: near_def)
  from abs_le_D1[OF a] abs_le_D2[OF a] show ?thesis
    unfolding rel_close_def by (simp add: algebra_simps)
qed

lemma close_rounds:
  "rounds x y \<Longrightarrow> 1 / 10 ^ 6 \<le> y \<Longrightarrow> y \<le> 1000 \<Longrightarrow> rel_close (1 / 10 ^ 6) x y"
  by (rule close_near) (simp_all add: rounds_def in_range_def)

lemma rounds_zero: "rounds x 0 \<Longrightarrow> x = 0"
  by (simp add: rounds_def in_range_def near_def)

lemma close_refl: "0 \<le> e \<Longrightarrow> 0 \<le> y \<Longrightarrow> rel_close e y y"
  unfolding rel_close_def by (simp add: algebra_simps)

lemma close_weaken: "rel_close e x y \<Longrightarrow> e \<le> e' \<Longrightarrow> 0 \<le> y \<Longrightarrow> rel_close e' x y"
proof -
  assume w: "rel_close e x y" and e: "e \<le> e'" and y: "0 \<le> y"
  have "y * e \<le> y * e'" using e y by (rule mult_left_mono)
  with w show ?thesis unfolding rel_close_def by (simp add: algebra_simps)
qed

lemma close_pos: "rel_close e x y \<Longrightarrow> 0 < y \<Longrightarrow> e < 1 \<Longrightarrow> 0 < x"
proof -
  assume w: "rel_close e x y" and y: "0 < y" and e: "e < 1"
  have "0 < y * (1 - e)" using y e by simp
  with w show ?thesis unfolding rel_close_def by linarith
qed

lemma close_trans:
  assumes xy: "rel_close e1 x y" and yz: "rel_close e2 y z" and z: "0 \<le> z"
    and e1: "0 \<le> e1" "e1 \<le> 1" and e2: "0 \<le> e2"
  shows "rel_close (e1 + e2 + e1 * e2) x z"
proof -
  have up: "x \<le> z * (1 + (e1 + e2 + e1 * e2))"
  proof -
    have "x \<le> y * (1 + e1)" using xy by (simp add: rel_close_def)
    also have "\<dots> \<le> (z * (1 + e2)) * (1 + e1)"
      using yz e1 by (intro mult_right_mono) (simp_all add: rel_close_def)
    finally show ?thesis by (simp add: algebra_simps)
  qed
  have lo: "z * (1 - (e1 + e2 + e1 * e2)) \<le> x"
  proof -
    have "0 \<le> z * (e1 * e2)" using z e1 e2 by simp
    then have "z * (1 - (e1 + e2 + e1 * e2)) \<le> (z * (1 - e2)) * (1 - e1)"
      by (simp add: algebra_simps)
    also have "\<dots> \<le> y * (1 - e1)"
      using yz e1 by (intro mult_right_mono) (simp_all add: rel_close_def)
    also have "\<dots> \<le> x" using xy by (simp add: rel_close_def)
    finally show ?thesis .
  qed
  from lo up show ?thesis by (simp add: rel_close_def)
qed

lemma close_mult:
  assumes a: "rel_close e1 a A" and b: "rel_close e2 b B" and A: "0 \<le> A" and B: "0 \<le> B"
    and e1: "0 \<le> e1" "e1 \<le> 1" and e2: "0 \<le> e2" "e2 \<le> 1"
  shows "rel_close (e1 + e2 + e1 * e2) (a * b) (A * B)"
proof -
  have a0: "0 \<le> A * (1 - e1)" and b0: "0 \<le> B * (1 - e2)" using A B e1 e2 by simp_all
  have al: "A * (1 - e1) \<le> a" and au: "a \<le> A * (1 + e1)" using a by (simp_all add: rel_close_def)
  have bl: "B * (1 - e2) \<le> b" and bu: "b \<le> B * (1 + e2)" using b by (simp_all add: rel_close_def)
  have a': "0 \<le> a" and b': "0 \<le> b" using a0 al b0 bl by linarith+
  have up: "a * b \<le> (A * (1 + e1)) * (B * (1 + e2))"
    using au bu a' b' by (intro mult_mono) simp_all
  have lo: "(A * (1 - e1)) * (B * (1 - e2)) \<le> a * b"
    using al bl a0 b0 a' b' by (intro mult_mono) simp_all
  have "0 \<le> (A * B) * (e1 * e2)" using A B e1 e2 by simp
  then have "(A * B) * (1 - (e1 + e2 + e1 * e2)) \<le> (A * (1 - e1)) * (B * (1 - e2))"
    by (simp add: algebra_simps)
  with lo up show ?thesis unfolding rel_close_def by (simp add: algebra_simps)
qed

lemma close_inverse:
  assumes b: "rel_close e b B" and B: "0 < B" and e: "0 \<le> e" "e \<le> 1 / 2"
  shows "rel_close (2 * e) (1 / b) (1 / B)"
proof -
  have bl: "B * (1 - e) \<le> b" and bu: "b \<le> B * (1 + e)" using b by (simp_all add: rel_close_def)
  have p: "0 < B * (1 - e)" using B e by simp
  then have bpos: "0 < b" using bl by linarith
  have up: "1 / b \<le> (1 / B) * (1 + 2 * e)"
  proof -
    have "1 / b \<le> 1 / (B * (1 - e))" using bl p by (intro divide_left_mono) simp_all
    also have "\<dots> = (1 / B) * (1 / (1 - e))" by simp
    also have "\<dots> \<le> (1 / B) * (1 + 2 * e)"
    proof (intro mult_left_mono)
      have "1 \<le> (1 + 2 * e) * (1 - e)"
      proof -
        have "(1 + 2 * e) * (1 - e) = 1 + e * (1 - 2 * e)" by (simp add: algebra_simps)
        moreover have "0 \<le> e * (1 - 2 * e)" using e by simp
        ultimately show ?thesis by linarith
      qed
      then show "1 / (1 - e) \<le> 1 + 2 * e" using e by (simp add: divide_le_eq)
      show "0 \<le> 1 / B" using B by simp
    qed
    finally show ?thesis .
  qed
  have lo: "(1 / B) * (1 - 2 * e) \<le> 1 / b"
  proof -
    have "(1 + e) * (1 - 2 * e) \<le> 1"
    proof -
      have "(1 + e) * (1 - 2 * e) = 1 - e * (1 + 2 * e)" by (simp add: algebra_simps)
      moreover have "0 \<le> e * (1 + 2 * e)" using e by simp
      ultimately show ?thesis by linarith
    qed
    then have "1 - 2 * e \<le> 1 / (1 + e)" using e by (simp add: le_divide_eq mult.commute)
    then have "(1 / B) * (1 - 2 * e) \<le> (1 / B) * (1 / (1 + e))"
      using B by (intro mult_left_mono) simp_all
    also have "\<dots> = 1 / (B * (1 + e))" by simp
    also have "\<dots> \<le> 1 / b" using bu bpos by (intro divide_left_mono) simp_all
    finally show ?thesis .
  qed
  from lo up show ?thesis by (simp add: rel_close_def)
qed

lemma close_div:
  assumes a: "rel_close e1 a A" and b: "rel_close e2 b B" and A: "0 \<le> A" and B: "0 < B"
    and e1: "0 \<le> e1" "e1 \<le> 1" and e2: "0 \<le> e2" "e2 \<le> 1 / 2"
  shows "rel_close (e1 + 2 * e2 + e1 * (2 * e2)) (a / b) (A / B)"
proof -
  have "rel_close (e1 + 2 * e2 + e1 * (2 * e2)) (a * (1 / b)) (A * (1 / B))"
    using a close_inverse[OF b B e2] A B e1 e2 by (intro close_mult) simp_all
  then show ?thesis by simp
qed

lemma close_add:
  "rel_close e a A \<Longrightarrow> rel_close e b B \<Longrightarrow> rel_close e (a + b) (A + B)"
  unfolding rel_close_def by (simp add: algebra_simps)

lemma close_abs:
  assumes "rel_close e x y" and "0 \<le> y"
  shows "\<bar>x - y\<bar> \<le> y * e"
  using assms unfolding rel_close_def by (simp add: abs_le_iff algebra_simps)

lemma close_powr_base:
  assumes a: "rel_close e a A" and A: "0 < A" and e: "0 \<le> e" "e \<le> 1 / 10"
    and y: "0 \<le> y" "y \<le> 3"
  shows "rel_close (4 * e) (a powr y) (A powr y)"
proof -
  have al: "A * (1 - e) \<le> a" and au: "a \<le> A * (1 + e)" using a by (simp_all add: rel_close_def)
  have lo0: "0 < A * (1 - e)" using A e by simp
  then have a0: "0 \<le> a" using al by linarith
  have Ay: "0 \<le> A powr y" by simp
  have e2: "e * e \<le> e * (1 / 10)" using e by (intro mult_left_mono) simp_all
  have e3: "e * e * e \<le> e * e" using e mult_left_le[of e "e * e"] by (simp add: mult_nonneg_nonneg)
  have e3': "0 \<le> e * e * e" using e by simp
  have up: "a powr y \<le> A powr y * (1 + 4 * e)"
  proof -
    have "a powr y \<le> (A * (1 + e)) powr y" using y a0 au by (intro powr_mono2) simp_all
    also have "\<dots> = A powr y * (1 + e) powr y" by (simp add: powr_mult)
    also have "\<dots> \<le> A powr y * (1 + e) powr 3"
      using y e by (intro mult_left_mono powr_mono) simp_all
    also have "(1 + e) powr 3 = (1 + e) ^ 3" using e by (simp add: powr_numeral)
    also have "A powr y * (1 + e) ^ 3 \<le> A powr y * (1 + 4 * e)"
    proof (intro mult_left_mono Ay)
      have "(1 + e) ^ 3 = 1 + 3 * e + 3 * (e * e) + e * e * e" by (simp add: power3_eq_cube algebra_simps)
      with e e2 e3 show "(1 + e) ^ 3 \<le> 1 + 4 * e" by linarith
    qed
    finally show ?thesis .
  qed
  have lo: "A powr y * (1 - 4 * e) \<le> a powr y"
  proof -
    have "A powr y * (1 - 4 * e) \<le> A powr y * (1 - e) ^ 3"
    proof (intro mult_left_mono Ay)
      have "(1 - e) ^ 3 = 1 - 3 * e + 3 * (e * e) - e * e * e" by (simp add: power3_eq_cube algebra_simps)
      moreover have "0 \<le> e * e" using e by simp
      ultimately show "1 - 4 * e \<le> (1 - e) ^ 3" using e e3 by linarith
    qed
    also have "(1 - e) ^ 3 = (1 - e) powr 3" using e by (simp add: powr_numeral)
    also have "A powr y * (1 - e) powr 3 \<le> A powr y * (1 - e) powr y"
      using y e by (intro mult_left_mono powr_mono') simp_all
    also have "\<dots> = (A * (1 - e)) powr y" by (simp add: powr_mult)
    also have "\<dots> \<le> a powr y" using y lo0 al by (intro powr_mono2) simp_all
    finally show ?thesis .
  qed
  from lo up show ?thesis by (simp add: rel_close_def)
qed

lemma ln_sixteen: "ln (16 :: real) \<le> 4"
proof -
  have "ln (16 :: real) = ln (2 ^ 4)" by simp
  also have "\<dots> = 4 * ln 2" by (subst ln_realpow) simp_all
  also have "\<dots> \<le> 4 * (2 - 1)" using ln_le_minus_one[of "2 :: real"] by simp
  finally show ?thesis by simp
qed

lemma close_powr_exp:
  fixes b d :: real
  assumes b: "1 / 16 \<le> b" "b \<le> 16" and d: "\<bar>d\<bar> \<le> 1 / 100"
  shows "rel_close (8 * \<bar>d\<bar>) (b powr d) 1"
proof -
  have bpos: "0 < b" using b by linarith
  have up: "ln b \<le> 4"
  proof -
    have "ln b \<le> ln 16" using b bpos by simp
    with ln_sixteen show ?thesis by linarith
  qed
  have lo: "- 4 \<le> ln b"
  proof -
    have "ln (1 / 16 :: real) \<le> ln b" using b bpos by (subst ln_le_cancel_iff) simp_all
    moreover have "ln (1 / 16 :: real) = - ln 16" by (simp add: ln_div)
    ultimately show ?thesis using ln_sixteen by linarith
  qed
  have "\<bar>ln b\<bar> \<le> 4" using up lo by (simp add: abs_le_iff)
  then have "\<bar>d\<bar> * \<bar>ln b\<bar> \<le> \<bar>d\<bar> * 4" by (intro mult_left_mono) simp_all
  then have z: "\<bar>d * ln b\<bar> \<le> 4 * \<bar>d\<bar>" by (simp add: abs_mult)
  let ?z = "4 * \<bar>d\<bar>"
  have z0: "0 \<le> ?z" and z1: "?z \<le> 1" using d by simp_all
  have e: "b powr d = exp (d * ln b)" using bpos by (simp add: powr_def)
  have "exp (d * ln b) \<le> exp ?z" using z by (simp add: abs_le_iff)
  also have "\<dots> \<le> 1 + ?z + ?z\<^sup>2" using z0 z1 by (rule exp_bound)
  also have "\<dots> \<le> 1 + 2 * ?z"
  proof -
    have "?z * ?z \<le> ?z * 1" using z0 z1 by (intro mult_left_mono) simp_all
    then show ?thesis by (simp add: power2_eq_square)
  qed
  finally have u: "b powr d \<le> 1 + 8 * \<bar>d\<bar>" using e by simp
  have "1 + (- ?z) \<le> exp (- ?z)" by (rule exp_ge_add_one_self)
  also have "\<dots> \<le> exp (d * ln b)" using z by (simp add: abs_le_iff)
  finally have l: "1 - 8 * \<bar>d\<bar> \<le> b powr d" using e by simp
  from l u show ?thesis by (simp add: rel_close_def)
qed

lemma close_powr_factor:
  assumes g: "rel_close e G 1" and e: "0 \<le> e" "e < 1" and y: "0 \<le> y" "y \<le> 1"
  shows "rel_close e (G powr y) 1"
proof -
  have gl: "1 - e \<le> G" and gu: "G \<le> 1 + e" using g by (simp_all add: rel_close_def)
  have gpos: "0 < G" using gl e by linarith
  show ?thesis
  proof (cases "1 \<le> G")
    case True
    have "1 \<le> G powr y" using True y by (intro ge_one_powr_ge_zero) simp_all
    moreover have "G powr y \<le> G powr 1" using True y by (intro powr_mono) simp_all
    ultimately show ?thesis using gu gpos e by (simp add: rel_close_def)
  next
    case False
    have "G powr y \<le> 1" using False gpos y by (intro powr_le1) simp_all
    moreover have "G powr 1 \<le> G powr y" using False gpos y by (intro powr_mono') simp_all
    ultimately show ?thesis using gl gpos e by (simp add: rel_close_def)
  qed
qed

text \<open>What \<open>ieee_like\<close> gives, one operation at a time.\<close>

lemma round_close:
  assumes r: "rounds x y" and c: "rel_close e y z" and e: "0 \<le> e" "e \<le> 1 / 100"
    and z: "1 / 10 ^ 5 \<le> z" "z \<le> 900"
  shows "rel_close (e + 2 / 10 ^ 6) x z"
proof -
  have yl: "z * (1 - e) \<le> y" and yu: "y \<le> z * (1 + e)" using c by (simp_all add: rel_close_def)
  have z1: "1 / 100000 \<le> z" using z by simp
  have z0: "0 \<le> z" using z1 by simp
  have ze: "z * e \<le> z * (1 / 100)" using e z0 by (intro mult_left_mono) simp_all
  have yl': "z - z * e \<le> y" and yu': "y \<le> z + z * e" using yl yu by (simp_all add: algebra_simps)
  have "1 / 1000000 \<le> y" using yl' ze z1 by linarith
  then have y1: "1 / 10 ^ 6 \<le> y" by simp
  have y2: "y \<le> 1000" using yu' ze z(2) by linarith
  have c2: "rel_close (1 / 10 ^ 6 + e + 1 / 10 ^ 6 * e) x z"
    using close_rounds[OF r y1 y2] c z0 e by (intro close_trans) simp_all
  have "1 / 1000000 * e \<le> 1 / 1000000 * (1 / 100)" using e by (intro mult_left_mono) simp_all
  then have "1 / 10 ^ 6 + e + 1 / 10 ^ 6 * e \<le> e + 2 / 10 ^ 6" by simp
  with c2 show ?thesis using z0 by (rule close_weaken)
qed

lemma ieee_ops:
  fixes E :: "('f::{plus,minus,times,inverse,ord}, 'd::{plus,times}) float_env"
  assumes "ieee_like E"
  shows "rounds (fval E (a + b)) (fval E a + fval E b)"
    and "rounds (fval E (a - b)) (fval E a - fval E b)"
    and "rounds (fval E (a * b)) (fval E a * fval E b)"
    and "fval E b \<noteq> 0 \<Longrightarrow> rounds (fval E (a / b)) (fval E a / fval E b)"
    and "0 < fval E a \<Longrightarrow> rounds (fval E (powf E a b)) (fval E a powr fval E b)"
    and "(a < b) = (fval E a < fval E b)"
    and "(a \<le> b) = (fval E a \<le> fval E b)"
    and "rounds (fval E (flit E x)) x"
  using assms unfolding ieee_like_def float_arith_def float_order_def float_convert_def
  by simp_all

lemma ieee_exact:
  fixes E :: "('f::{plus,minus,times,inverse,ord}, 'd::{plus,times}) float_env"
  assumes "ieee_like E"
  shows "fval E c = fval E a + fval E b \<Longrightarrow> fval E (a + b) = fval E a + fval E b"
    and "fval E c = fval E a - fval E b \<Longrightarrow> fval E (a - b) = fval E a - fval E b"
    and "fval E c = fval E a * fval E b \<Longrightarrow> fval E (a * b) = fval E a * fval E b"
proof -
  from assms have x: "float_exact E" by (simp add: ieee_like_def)
  show "fval E c = fval E a + fval E b \<Longrightarrow> fval E (a + b) = fval E a + fval E b"
    using x unfolding float_exact_def by blast
  show "fval E c = fval E a - fval E b \<Longrightarrow> fval E (a - b) = fval E a - fval E b"
    using x unfolding float_exact_def by blast
  show "fval E c = fval E a * fval E b \<Longrightarrow> fval E (a * b) = fval E a * fval E b"
    using x unfolding float_exact_def by blast
qed

lemma ieee_int:
  fixes E :: "('f::{plus,minus,times,inverse,ord}, 'd::{plus,times}) float_env"
  assumes "ieee_like E" and "\<bar>n\<bar> \<le> 2 ^ 24"
  shows "fval E (flit E (of_int n)) = of_int n" and "fval E (f_of_int E n) = of_int n"
  using assms unfolding ieee_like_def float_convert_def by simp_all

lemma ieee_uchar:
  fixes E :: "('f::{plus,minus,times,inverse,ord}, 'd::{plus,times}) float_env"
  assumes "ieee_like E"
  shows "0 \<le> fval E x \<Longrightarrow> fval E x < 256 \<Longrightarrow> uchar_of_f E x = word_of_int \<lfloor>fval E x\<rfloor>"
    and "0 \<le> dval E y \<Longrightarrow> dval E y < 256 \<Longrightarrow> uchar_of_d E y = word_of_int \<lfloor>dval E y\<rfloor>"
  using assms unfolding ieee_like_def float_convert_def double_arith_def by simp_all

lemma ieee_double:
  fixes E :: "('f::{plus,minus,times,inverse,ord}, 'd::{plus,times}) float_env"
  assumes "ieee_like E"
  shows "rounds (dval E (p + q)) (dval E p + dval E q)"
    and "rounds (dval E (p * q)) (dval E p * dval E q)"
    and "rounds (dval E (dlit E x)) x"
    and "dval E (d_of_f E a) = fval E a"
  using assms unfolding ieee_like_def double_arith_def by simp_all

lemma ieee_lits:
  fixes E :: "('f::{plus,minus,times,inverse,ord}, 'd::{plus,times}) float_env"
  assumes I: "ieee_like E"
  shows "fval E (flit E 0) = 0" and "fval E (flit E 1) = 1" and "fval E (flit E 255) = 255"
  using ieee_int(1)[OF I, of 0] ieee_int(1)[OF I, of 1] ieee_int(1)[OF I, of 255] by simp_all

lemma lit_close:
  fixes E :: "('f::{plus,minus,times,inverse,ord}, 'd::{plus,times}) float_env"
  assumes "ieee_like E" and "1 / 10 ^ 6 \<le> x" and "x \<le> 1000"
  shows "rel_close (1 / 10 ^ 6) (fval E (flit E x)) x"
  using ieee_ops(8)[OF assms(1)] assms(2,3) by (rule close_rounds)

text \<open>The decoder on the power segment, bytes 11 to 255.\<close>

lemma gamma_base_bounds:
  assumes "11 \<le> V" "V \<le> 255"
  shows "93 / 1000 \<le> gamma_base V" "gamma_base V \<le> 1"
  using assms by (simp_all add: gamma_base_def field_simps)

lemma powr_low_bound:
  fixes T :: real
  assumes "93 / 1000 \<le> T" "T \<le> 1"
  shows "33 / 10000 \<le> T powr 2.4" "T powr 2.4 \<le> 1"
proof -
  have e: "(2.4 :: real) = real 12 / real 5" by simp
  have "33 / 10000 < (93 / 1000 :: real) powr (real 12 / real 5)"
    by (rule powr_ratio_bounds[where hi = 1, THEN conjunct1]) (simp_all add: power_divide)
  also have "\<dots> \<le> T powr (real 12 / real 5)" using assms by (intro powr_mono2) simp_all
  finally show "33 / 10000 \<le> T powr 2.4" unfolding e by simp
  show "T powr 2.4 \<le> 1" using assms by (intro powr_le1) simp_all
qed

lemma byte_range: "0 \<le> uint (v :: uchar)" "uint (v :: uchar) \<le> 255"
proof -
  show "0 \<le> uint v" by simp
  have "uint v < 2 ^ 8" using uint_bounded[of v] by simp
  then show "uint v \<le> 255" by simp
qed

lemma decode_high:
  fixes E :: "('f::{plus,minus,times,inverse,ord}, 'd::{plus,times}) float_env"
  assumes I: "ieee_like E" and v: "11 \<le> uint v"
  shows "rel_close (1 / 10 ^ 4) (fval E (linearRGB_from_sRGB E v))
           (gamma_base (real_of_int (uint v)) powr 2.4)"
proof -
  define V where "V = real_of_int (uint v)"
  define T where "T = gamma_base V"
  have V: "11 \<le> V" "V \<le> 255" unfolding V_def using v byte_range(2)[of v] by linarith+
  note Tb = gamma_base_bounds[OF V, folded T_def]
  note Pb = powr_low_bound[OF Tb]
  define fv where "fv = f_of_int E (uint v) / flit E 255"
  define k1 where "k1 = flit E 0.04045"
  define k2 where "k2 = flit E 0.055"
  define k3 where "k3 = flit E 1.055"
  define k4 where "k4 = flit E 2.4"
  define t1 where "t1 = fv + k2"
  define t2 where "t2 = t1 / k3"
  have dec: "linearRGB_from_sRGB E v = (if fv < k1 then fv / flit E 12.92 else powf E t2 k4)"
    by (simp add: linearRGB_from_sRGB_def Let_def fv_def k1_def k2_def k3_def k4_def t1_def t2_def)
  have fi: "fval E (f_of_int E (uint v)) = V"
    unfolding V_def using byte_range[of v] by (intro ieee_int(2)[OF I]) simp
  have f255: "fval E (flit E 255) = 255" by (rule ieee_lits[OF I])
  have "rounds (fval E fv) (V / 255)"
    using ieee_ops(4)[OF I, of "flit E 255" "f_of_int E (uint v)"] by (simp add: fv_def fi f255)
  moreover have "rel_close 0 (V / 255) (V / 255)" using V by (intro close_refl) simp_all
  ultimately have "rel_close (0 + 2 / 10 ^ 6) (fval E fv) (V / 255)"
    by (rule round_close) (use V in simp_all)
  then have fv: "rel_close (2 / 10 ^ 6) (fval E fv) (V / 255)" by simp
  have fvl: "V / 255 * (1 - 2 / 10 ^ 6) \<le> fval E fv" using fv by (simp add: rel_close_def)
  have c1: "rel_close (1 / 10 ^ 6) (fval E k1) 0.04045" unfolding k1_def by (rule lit_close[OF I]) simp_all
  have "\<not> fv < k1"
  proof -
    have "fval E k1 \<le> 0.04045 * (1 + 1 / 10 ^ 6)" using c1 by (simp add: rel_close_def)
    moreover have "11 / 255 * (1 - 2 / 10 ^ 6) \<le> V / 255 * (1 - 2 / 10 ^ 6)"
      using V by (intro mult_right_mono) simp_all
    ultimately have "fval E k1 \<le> fval E fv" using fvl by (simp add: field_simps)
    then show ?thesis by (simp add: ieee_ops(6)[OF I])
  qed
  then have dec': "linearRGB_from_sRGB E v = powf E t2 k4" by (simp add: dec)
  have c2: "rel_close (1 / 10 ^ 6) (fval E k2) 0.055" unfolding k2_def by (rule lit_close[OF I]) simp_all
  have s1: "rel_close (2 / 10 ^ 6) (fval E fv + fval E k2) (V / 255 + 0.055)"
    using fv close_weaken[OF c2, of "2 / 10 ^ 6"] by (intro close_add) simp_all
  have "rounds (fval E t1) (fval E fv + fval E k2)" unfolding t1_def by (rule ieee_ops(1)[OF I])
  then have "rel_close (2 / 10 ^ 6 + 2 / 10 ^ 6) (fval E t1) (V / 255 + 0.055)"
    using s1 by (rule round_close) (use V in simp_all)
  then have t1: "rel_close (4 / 10 ^ 6) (fval E t1) (V / 255 + 0.055)" by simp
  have c3: "rel_close (1 / 10 ^ 6) (fval E k3) 1.055" unfolding k3_def by (rule lit_close[OF I]) simp_all
  have k3pos: "0 < fval E k3" using c3 by (rule close_pos) simp_all
  have "rel_close (4 / 10 ^ 6 + 2 * (1 / 10 ^ 6) + 4 / 10 ^ 6 * (2 * (1 / 10 ^ 6)))
          (fval E t1 / fval E k3) ((V / 255 + 0.055) / 1.055)"
    using t1 c3 V by (intro close_div) simp_all
  then have q: "rel_close (7 / 10 ^ 6) (fval E t1 / fval E k3) T"
    unfolding T_def gamma_base_def by (rule close_weaken) (use V in simp_all)
  have "rounds (fval E t2) (fval E t1 / fval E k3)"
    unfolding t2_def using k3pos by (intro ieee_ops(4)[OF I]) simp
  then have "rel_close (7 / 10 ^ 6 + 2 / 10 ^ 6) (fval E t2) T"
    using q by (rule round_close) (use Tb in simp_all)
  then have t2: "rel_close (9 / 10 ^ 6) (fval E t2) T" by simp
  have t2l: "T * (1 - 9 / 10 ^ 6) \<le> fval E t2" and t2u: "fval E t2 \<le> T * (1 + 9 / 10 ^ 6)"
    using t2 by (simp_all add: rel_close_def)
  have t2pos: "0 < fval E t2" using t2 by (rule close_pos) (use Tb in simp_all)
  have c4: "rel_close (1 / 10 ^ 6) (fval E k4) 2.4" unfolding k4_def by (rule lit_close[OF I]) simp_all
  define d where "d = fval E k4 - 2.4"
  have dabs: "\<bar>d\<bar> \<le> 24 / 10 ^ 7" using close_abs[OF c4] by (simp add: d_def)
  have split: "fval E t2 powr fval E k4 = fval E t2 powr 2.4 * fval E t2 powr d"
    unfolding d_def by (simp add: powr_add[symmetric])
  have p1: "rel_close (4 * (9 / 10 ^ 6)) (fval E t2 powr 2.4) (T powr 2.4)"
    using t2 Tb by (intro close_powr_base) simp_all
  have p2: "rel_close (8 * \<bar>d\<bar>) (fval E t2 powr d) 1"
  proof (rule close_powr_exp)
    have "93 / 1000 * (1 - 9 / 10 ^ 6) \<le> T * (1 - 9 / 10 ^ 6)"
      using Tb by (intro mult_right_mono) simp_all
    then show "1 / 16 \<le> fval E t2" using t2l by simp
    have "T * (1 + 9 / 10 ^ 6) \<le> 1 * (1 + 9 / 10 ^ 6)" using Tb by (intro mult_right_mono) simp_all
    then show "fval E t2 \<le> 16" using t2u by simp
    show "\<bar>d\<bar> \<le> 1 / 100" using dabs by simp
  qed
  have p2': "rel_close (20 / 10 ^ 6) (fval E t2 powr d) 1"
    using p2 by (rule close_weaken) (use dabs in simp_all)
  have "rel_close (4 * (9 / 10 ^ 6) + 20 / 10 ^ 6 + 4 * (9 / 10 ^ 6) * (20 / 10 ^ 6))
          (fval E t2 powr 2.4 * fval E t2 powr d) (T powr 2.4 * 1)"
    using p1 p2' by (intro close_mult) simp_all
  then have "rel_close (4 * (9 / 10 ^ 6) + 20 / 10 ^ 6 + 4 * (9 / 10 ^ 6) * (20 / 10 ^ 6))
          (fval E t2 powr fval E k4) (T powr 2.4)"
    unfolding split by simp
  then have p: "rel_close (57 / 10 ^ 6) (fval E t2 powr fval E k4) (T powr 2.4)"
    by (rule close_weaken) (use Pb in simp_all)
  have "rounds (fval E (powf E t2 k4)) (fval E t2 powr fval E k4)"
    using t2pos by (rule ieee_ops(5)[OF I])
  then have "rel_close (57 / 10 ^ 6 + 2 / 10 ^ 6) (fval E (powf E t2 k4)) (T powr 2.4)"
    using p by (rule round_close) (use Pb in simp_all)
  then have "rel_close (1 / 10 ^ 4) (fval E (powf E t2 k4)) (T powr 2.4)"
    by (rule close_weaken) (use Pb in simp_all)
  then show ?thesis unfolding dec' T_def V_def .
qed

text \<open>The encoder on a value that close to a decoded byte of the power segment: the
  truncation returns the byte or the one below.\<close>

lemma near_abs: "rounds x y \<Longrightarrow> 1 / 1000000 \<le> y \<Longrightarrow> y \<le> 1000 \<Longrightarrow> \<bar>x - y\<bar> \<le> y / 1000000"
  by (simp add: rounds_def in_range_def near_def)

lemma floor_near_byte:
  assumes "real_of_int n - 1 < y" and "y < real_of_int n + 1"
  shows "\<lfloor>y\<rfloor> = n \<or> \<lfloor>y\<rfloor> = n - 1"
proof -
  have "\<lfloor>y\<rfloor> \<le> n" using assms(2) by (simp add: floor_le_iff)
  moreover have "n - 1 \<le> \<lfloor>y\<rfloor>" using assms(1) by (simp add: le_floor_iff)
  ultimately show ?thesis by linarith
qed

lemma encode_high:
  fixes E :: "('f::{plus,minus,times,inverse,ord}, 'd::{plus,times}) float_env"
  assumes I: "ieee_like E" and v: "11 \<le> uint v"
    and x: "rel_close (2 / 10 ^ 4) (fval E x) (gamma_base (real_of_int (uint v)) powr 2.4)"
  shows "sRGB_from_linearRGB E x = v \<or> sRGB_from_linearRGB E x = v - 1"
proof -
  define V where "V = real_of_int (uint v)"
  define T where "T = gamma_base V"
  define P where "P = T powr 2.4"
  define X where "X = fval E x"
  have V: "11 \<le> V" "V \<le> 255" unfolding V_def using v byte_range(2)[of v] by linarith+
  note Tb = gamma_base_bounds[OF V, folded T_def]
  note Pb = powr_low_bound[OF Tb, folded P_def]
  have Tpos: "0 < T" using Tb by simp
  have Ppos: "0 < P" using Pb by simp
  have xc: "rel_close (2 / 10 ^ 4) X P" using x by (simp add: X_def P_def T_def V_def)
  have Xl: "P * (1 - 2 / 10 ^ 4) \<le> X" and Xu: "X \<le> P * (1 + 2 / 10 ^ 4)"
    using xc by (simp_all add: rel_close_def)
  have Xpos: "0 < X" using xc Ppos by (rule close_pos) simp
  define k0 where "k0 = flit E 0"
  define k1 where "k1 = flit E 1"
  define kt where "kt = flit E 0.0031308"
  define k24 where "k24 = flit E 2.4"
  define k1055 where "k1055 = flit E 1.055"
  define k055 where "k055 = flit E 0.055"
  define k255 where "k255 = flit E 255"
  define e' where "e' = k1 / k24"
  define p where "p = powf E x e'"
  define q where "q = p * k1055"
  define r where "r = q - k055"
  define s where "s = k255 * r"
  define y where "y = k0 + s"
  have enc: "sRGB_from_linearRGB E x =
      (if x \<le> k0 then 0 else if k1 \<le> x then 255
       else if x < kt
         then uchar_of_d E (d_of_f E (flit E 0.5) + (d_of_f E x * dlit E 12.92 * d_of_f E k255))
       else uchar_of_f E y)"
    by (simp add: sRGB_from_linearRGB_def k0_def k1_def kt_def k24_def k1055_def k055_def k255_def
        e'_def p_def q_def r_def s_def y_def)
  have f0: "fval E k0 = 0" and f1: "fval E k1 = 1" and f255: "fval E k255 = 255"
    unfolding k0_def k1_def k255_def by (rule ieee_lits[OF I])+
  have n0: "\<not> x \<le> k0" using Xpos by (simp add: ieee_ops(7)[OF I] f0 X_def)
  show ?thesis
  proof (cases "k1 \<le> x")
    case True
    then have X1: "1 \<le> X" by (simp add: ieee_ops(7)[OF I] f1 X_def)
    have "254 < V"
    proof (rule ccontr)
      assume "\<not> 254 < V"
      then have V254: "V \<le> 254" by simp
      have "T \<le> (254 / 255 + 0.055) / 1.055" unfolding T_def gamma_base_def using V254 by simp
      then have T254: "T \<le> 997 / 1000" by simp
      have "P \<le> T powr 2" unfolding P_def using Tb by (intro powr_mono') simp_all
      also have "\<dots> = T * T" using Tpos by (simp add: power2_eq_square)
      also have "\<dots> \<le> (997 / 1000) * (997 / 1000)" using T254 Tpos by (intro mult_mono) simp_all
      finally have "P \<le> 995 / 1000" by simp
      then have "P * (1 + 2 / 10 ^ 4) \<le> 995 / 1000 * (1 + 2 / 10 ^ 4)" by (intro mult_right_mono) simp_all
      with Xu X1 show False by simp
    qed
    then have "254 < uint v" unfolding V_def by linarith
    then have "uint v = 255" using byte_range(2)[of v] by linarith
    then have "v = 255" by (metis word_of_int_uint word_of_int_numeral)
    then show ?thesis using n0 True by (simp add: enc)
  next
    case False
    have ct: "rel_close (1 / 10 ^ 6) (fval E kt) 0.0031308" unfolding kt_def by (rule lit_close[OF I]) simp_all
    have nt: "\<not> x < kt"
    proof -
      have "fval E kt \<le> 0.0031308 * (1 + 1 / 10 ^ 6)" using ct by (simp add: rel_close_def)
      moreover have "33 / 10000 * (1 - 2 / 10 ^ 4) \<le> P * (1 - 2 / 10 ^ 4)"
        using Pb by (intro mult_right_mono) simp_all
      ultimately have "fval E kt \<le> X" using Xl by simp
      then show ?thesis by (simp add: ieee_ops(6)[OF I] X_def)
    qed
    have res: "sRGB_from_linearRGB E x = uchar_of_f E y" using n0 False nt by (simp add: enc)
    \<comment> \<open>the exponent\<close>
    have c24: "rel_close (1 / 10 ^ 6) (fval E k24) 2.4" unfolding k24_def by (rule lit_close[OF I]) simp_all
    have k24pos: "0 < fval E k24" using c24 by (rule close_pos) simp_all
    have "rel_close (2 * (1 / 10 ^ 6)) (1 / fval E k24) (1 / 2.4)"
      using c24 by (intro close_inverse) simp_all
    moreover have "rounds (fval E e') (1 / fval E k24)"
      using ieee_ops(4)[OF I, of k24 k1] k24pos by (simp add: e'_def f1)
    ultimately have "rel_close (2 * (1 / 10 ^ 6) + 2 / 10 ^ 6) (fval E e') (1 / 2.4)"
      by (intro round_close) simp_all
    then have ce: "rel_close (4 / 10 ^ 6) (fval E e') (5 / 12)" by simp
    define ev where "ev = fval E e'"
    have evl: "5 / 12 * (1 - 4 / 10 ^ 6) \<le> ev" and evu: "ev \<le> 5 / 12 * (1 + 4 / 10 ^ 6)"
      using ce by (simp_all add: rel_close_def ev_def)
    have ev01: "0 \<le> ev" "ev \<le> 1" using evl evu by simp_all
    define g where "g = 2.4 * ev - 1"
    have evl': "83333 / 200000 \<le> ev" and evu': "ev \<le> 250001 / 600000"
      using evl evu by simp_all
    have "\<bar>g\<bar> \<le> 4 / 1000000" unfolding g_def using evl' evu' by linarith
    then have gabs: "\<bar>g\<bar> \<le> 4 / 10 ^ 6" by simp
    \<comment> \<open>the power\<close>
    define G where "G = X / P"
    have XG: "X = P * G" using Ppos by (simp add: G_def)
    have Gc: "rel_close (2 / 10 ^ 4) G 1"
      using Xl Xu Ppos by (simp add: rel_close_def G_def field_simps)
    have "X powr ev = P powr ev * G powr ev" unfolding XG by (rule powr_mult)
    also have "P powr ev = T powr (2.4 * ev)" unfolding P_def by (rule powr_powr)
    also have "2.4 * ev = 1 + g" by (simp add: g_def)
    also have "T powr (1 + g) = T * T powr g" using Tpos by (simp add: powr_add)
    finally have pw: "X powr ev = T * (T powr g * G powr ev)" by simp
    have "rel_close (8 * \<bar>g\<bar>) (T powr g) 1"
      using Tb gabs by (intro close_powr_exp) simp_all
    then have tg: "rel_close (32 / 10 ^ 6) (T powr g) 1"
      by (rule close_weaken) (use gabs in simp_all)
    have gg: "rel_close (2 / 10 ^ 4) (G powr ev) 1"
      using Gc ev01 by (intro close_powr_factor) simp_all
    have "rel_close (32 / 10 ^ 6 + 2 / 10 ^ 4 + 32 / 10 ^ 6 * (2 / 10 ^ 4)) (T powr g * G powr ev) (1 * 1)"
      using tg gg by (intro close_mult) simp_all
    then have m1: "rel_close (24 / 10 ^ 5) (T powr g * G powr ev) 1"
      by (simp add: close_weaken)
    have "rel_close (0 + 24 / 10 ^ 5 + 0 * (24 / 10 ^ 5)) (T * (T powr g * G powr ev)) (T * 1)"
      using m1 Tb by (intro close_mult close_refl) simp_all
    then have pc: "rel_close (24 / 10 ^ 5) (X powr ev) T" by (simp add: pw)
    have "rounds (fval E p) (X powr ev)"
      unfolding p_def X_def ev_def using Xpos by (intro ieee_ops(5)[OF I]) (simp add: X_def)
    then have "rel_close (24 / 10 ^ 5 + 2 / 10 ^ 6) (fval E p) T"
      using pc by (rule round_close) (use Tb in simp_all)
    then have pT: "rel_close (242 / 10 ^ 6) (fval E p) T" by simp
    \<comment> \<open>times 1.055\<close>
    have c1055: "rel_close (1 / 10 ^ 6) (fval E k1055) 1.055"
      unfolding k1055_def by (rule lit_close[OF I]) simp_all
    have "rel_close (242 / 10 ^ 6 + 1 / 10 ^ 6 + 242 / 10 ^ 6 * (1 / 10 ^ 6))
            (fval E p * fval E k1055) (T * 1.055)"
      using pT c1055 Tb by (intro close_mult) simp_all
    then have "rel_close (244 / 10 ^ 6) (fval E p * fval E k1055) (T * 1.055)"
      by (rule close_weaken) (use Tb in simp_all)
    moreover have "rounds (fval E q) (fval E p * fval E k1055)"
      unfolding q_def by (rule ieee_ops(3)[OF I])
    ultimately have qT: "rel_close (244 / 10 ^ 6 + 2 / 10 ^ 6) (fval E q) (T * 1.055)"
      by (intro round_close) (use Tb in simp_all)
    have TS: "T * 1.055 = V / 255 + 0.055" by (simp add: T_def gamma_base_def)
    have qS: "rel_close (246 / 10 ^ 6) (fval E q) (V / 255 + 0.055)"
      using qT unfolding TS by simp
    have "\<bar>fval E q - (V / 255 + 0.055)\<bar> \<le> (V / 255 + 0.055) * (246 / 10 ^ 6)"
      using qS by (rule close_abs) (use V in simp)
    moreover have "(V / 255 + 0.055) * (246 / 10 ^ 6) \<le> (255 / 255 + 0.055) * (246 / 10 ^ 6)"
      using V by (intro mult_right_mono) simp_all
    ultimately have qa: "\<bar>fval E q - (V / 255 + 0.055)\<bar> \<le> 26 / 100000" by simp
    \<comment> \<open>minus 0.055\<close>
    have c055: "rel_close (1 / 10 ^ 6) (fval E k055) 0.055"
      unfolding k055_def by (rule lit_close[OF I]) simp_all
    have ka: "\<bar>fval E k055 - 0.055\<bar> \<le> 1 / 1000000" using close_abs[OF c055] by simp
    define D where "D = fval E q - fval E k055"
    have Da: "\<bar>D - V / 255\<bar> \<le> 27 / 100000" using qa ka unfolding D_def by linarith
    have Vl: "11 / 255 \<le> V / 255" and Vu: "V / 255 \<le> 1" using V by simp_all
    have Dl: "1 / 1000000 \<le> D" and Du: "D \<le> 1000" using Da Vl Vu by linarith+
    have "rounds (fval E r) D" unfolding r_def D_def by (rule ieee_ops(2)[OF I])
    then have "\<bar>fval E r - D\<bar> \<le> D / 1000000" using Dl Du by (rule near_abs)
    moreover have "D / 1000000 \<le> 2 / 1000000" using Da Vu by linarith
    ultimately have ra: "\<bar>fval E r - V / 255\<bar> \<le> 28 / 100000" using Da by linarith
    \<comment> \<open>times 255\<close>
    define M where "M = 255 * fval E r"
    have Ma: "\<bar>M - V\<bar> \<le> 72 / 1000" using ra unfolding M_def by linarith
    have Ml: "1 / 1000000 \<le> M" and Mu: "M \<le> 1000" using Ma V by linarith+
    have "rounds (fval E s) M"
      using ieee_ops(3)[OF I, of k255 r] by (simp add: s_def M_def f255)
    then have "\<bar>fval E s - M\<bar> \<le> M / 1000000" using Ml Mu by (rule near_abs)
    moreover have "M / 1000000 \<le> 1 / 1000" using Ma V by linarith
    ultimately have sa: "\<bar>fval E s - V\<bar> \<le> 73 / 1000" using Ma by linarith
    \<comment> \<open>plus 0\<close>
    have "fval E y = fval E k0 + fval E s"
      unfolding y_def by (rule ieee_exact(1)[OF I, of s]) (simp add: f0)
    then have ys: "fval E y = fval E s" by (simp add: f0)
    have yl: "V - 1 < fval E y" and yu: "fval E y < V + 1" using sa unfolding ys by linarith+
    have y0: "0 \<le> fval E y" and y256: "fval E y < 256" using yl yu V by linarith+
    have "uchar_of_f E y = word_of_int \<lfloor>fval E y\<rfloor>" using y0 y256 by (rule ieee_uchar(1)[OF I])
    moreover have "\<lfloor>fval E y\<rfloor> = uint v \<or> \<lfloor>fval E y\<rfloor> = uint v - 1"
      using yl yu unfolding V_def by (intro floor_near_byte) simp_all
    ultimately show ?thesis unfolding res by (auto simp add: wi_hom_syms)
  qed
qed

text \<open>The linear segment, bytes 0 to 10: the encoder adds one half there and returns the
  byte itself.\<close>

lemma decode_guard:
  fixes E :: "('f::{plus,minus,times,inverse,ord}, 'd::{plus,times}) float_env"
  assumes I: "ieee_like E" and v: "uint v \<le> 10"
  shows "linearRGB_from_sRGB E v = f_of_int E (uint v) / flit E 255 / flit E 12.92"
    and "rounds (fval E (f_of_int E (uint v) / flit E 255)) (real_of_int (uint v) / 255)"
proof -
  define V where "V = real_of_int (uint v)"
  have V: "0 \<le> V" "V \<le> 10" unfolding V_def using v byte_range(1)[of v] by linarith+
  define fv where "fv = f_of_int E (uint v) / flit E 255"
  define k1 where "k1 = flit E 0.04045"
  have dec: "linearRGB_from_sRGB E v = (if fv < k1 then fv / flit E 12.92
      else powf E ((fv + flit E 0.055) / flit E 1.055) (flit E 2.4))"
    by (simp add: linearRGB_from_sRGB_def Let_def fv_def k1_def)
  have fi: "fval E (f_of_int E (uint v)) = V"
    unfolding V_def using byte_range[of v] by (intro ieee_int(2)[OF I]) simp
  have f255: "fval E (flit E 255) = 255" by (rule ieee_lits[OF I])
  have r: "rounds (fval E fv) (V / 255)"
    using ieee_ops(4)[OF I, of "flit E 255" "f_of_int E (uint v)"] by (simp add: fv_def fi f255)
  have c1: "rel_close (1 / 10 ^ 6) (fval E k1) 0.04045" unfolding k1_def by (rule lit_close[OF I]) simp_all
  have k1l: "4 / 100 \<le> fval E k1" using c1 by (simp add: rel_close_def)
  have "fval E fv < fval E k1"
  proof (cases "V = 0")
    case True
    with r have "fval E fv = 0" by (simp add: rounds_zero)
    with k1l show ?thesis by simp
  next
    case False
    then have "1 \<le> uint v" using V unfolding V_def by linarith
    then have V1: "1 \<le> V" unfolding V_def by linarith
    have "rel_close (1 / 10 ^ 6) (fval E fv) (V / 255)"
      using r by (rule close_rounds) (use V V1 in simp_all)
    then have "fval E fv \<le> V / 255 * (1 + 1 / 10 ^ 6)" by (simp add: rel_close_def)
    also have "\<dots> \<le> 10 / 255 * (1 + 1 / 10 ^ 6)" using V by (intro mult_right_mono) simp_all
    also have "\<dots> < 4 / 100" by simp
    finally show ?thesis using k1l by simp
  qed
  then have "fv < k1" by (simp add: ieee_ops(6)[OF I])
  then show "linearRGB_from_sRGB E v = f_of_int E (uint v) / flit E 255 / flit E 12.92"
    by (simp add: dec fv_def)
  show "rounds (fval E (f_of_int E (uint v) / flit E 255)) (real_of_int (uint v) / 255)"
    using r by (simp add: fv_def V_def)
qed

lemma decode_zero:
  fixes E :: "('f::{plus,minus,times,inverse,ord}, 'd::{plus,times}) float_env"
  assumes I: "ieee_like E" and v: "uint v = 0"
  shows "fval E (linearRGB_from_sRGB E v) = 0"
proof -
  have le: "uint v \<le> 10" using v by simp
  note g = decode_guard[OF I le]
  have c: "rel_close (1 / 10 ^ 6) (fval E (flit E 12.92)) 12.92" by (rule lit_close[OF I]) simp_all
  have pos: "0 < fval E (flit E 12.92)" using c by (rule close_pos) simp_all
  have z: "fval E (f_of_int E (uint v) / flit E 255) = 0" using g(2) v by (simp add: rounds_zero)
  have "rounds (fval E (f_of_int E (uint v) / flit E 255 / flit E 12.92))
          (fval E (f_of_int E (uint v) / flit E 255) / fval E (flit E 12.92))"
    using pos by (intro ieee_ops(4)[OF I]) simp
  then show ?thesis unfolding g(1) z by (simp add: rounds_zero)
qed

lemma decode_low:
  fixes E :: "('f::{plus,minus,times,inverse,ord}, 'd::{plus,times}) float_env"
  assumes I: "ieee_like E" and v: "1 \<le> uint v" "uint v \<le> 10"
  shows "rel_close (1 / 10 ^ 5) (fval E (linearRGB_from_sRGB E v)) (toe (real_of_int (uint v)))"
proof -
  define V where "V = real_of_int (uint v)"
  have V: "1 \<le> V" "V \<le> 10" unfolding V_def using v by linarith+
  note g = decode_guard[OF I v(2), folded V_def]
  define fv where "fv = f_of_int E (uint v) / flit E 255"
  have fv: "rel_close (1 / 10 ^ 6) (fval E fv) (V / 255)"
    unfolding fv_def using g(2) by (rule close_rounds) (use V in simp_all)
  have c: "rel_close (1 / 10 ^ 6) (fval E (flit E 12.92)) 12.92" by (rule lit_close[OF I]) simp_all
  have pos: "0 < fval E (flit E 12.92)" using c by (rule close_pos) simp_all
  have "rel_close (1 / 10 ^ 6 + 2 * (1 / 10 ^ 6) + 1 / 10 ^ 6 * (2 * (1 / 10 ^ 6)))
          (fval E fv / fval E (flit E 12.92)) (V / 255 / 12.92)"
    using fv c V by (intro close_div) simp_all
  then have q: "rel_close (4 / 10 ^ 6) (fval E fv / fval E (flit E 12.92)) (toe V)"
    unfolding toe_def by (rule close_weaken) (use V in simp_all)
  have tl: "1 / 10 ^ 5 \<le> toe V" and tu: "toe V \<le> 900"
    using V by (simp_all add: toe_def field_simps)
  have "rounds (fval E (fv / flit E 12.92)) (fval E fv / fval E (flit E 12.92))"
    using pos by (intro ieee_ops(4)[OF I]) simp
  then have "rel_close (4 / 10 ^ 6 + 2 / 10 ^ 6) (fval E (fv / flit E 12.92)) (toe V)"
    using q by (rule round_close) (use tl tu in simp_all)
  then have "rel_close (1 / 10 ^ 5) (fval E (fv / flit E 12.92)) (toe V)"
    by (rule close_weaken) (use tl in simp_all)
  then show ?thesis unfolding g(1) fv_def V_def .
qed

lemma encode_zero:
  fixes E :: "('f::{plus,minus,times,inverse,ord}, 'd::{plus,times}) float_env"
  assumes I: "ieee_like E" and x: "fval E x = 0"
  shows "sRGB_from_linearRGB E x = 0"
  by (simp add: sRGB_from_linearRGB_def ieee_ops(7)[OF I] ieee_lits[OF I] x)

lemma encode_low:
  fixes E :: "('f::{plus,minus,times,inverse,ord}, 'd::{plus,times}) float_env"
  assumes I: "ieee_like E" and v: "1 \<le> uint v" "uint v \<le> 10"
    and x: "rel_close (1 / 10 ^ 5) (fval E x) (toe (real_of_int (uint v)))"
  shows "sRGB_from_linearRGB E x = v"
proof -
  define V where "V = real_of_int (uint v)"
  define X where "X = fval E x"
  have V: "1 \<le> V" "V \<le> 10" unfolding V_def using v by linarith+
  have xc: "rel_close (1 / 10 ^ 5) X (toe V)" using x by (simp add: X_def V_def)
  have tl: "3 / 10000 \<le> toe V" and tu: "toe V \<le> 304 / 100000"
    using V by (simp_all add: toe_def field_simps)
  have Xl: "toe V * (1 - 1 / 10 ^ 5) \<le> X" and Xu: "X \<le> toe V * (1 + 1 / 10 ^ 5)"
    using xc by (simp_all add: rel_close_def)
  have Xpos: "0 < X" using xc by (rule close_pos) (use tl in simp_all)
  have "toe V * (1 + 1 / 10 ^ 5) \<le> 304 / 100000 * (1 + 1 / 10 ^ 5)"
    using tu by (intro mult_right_mono) simp_all
  then have Xs: "X \<le> 305 / 100000" using Xu by simp
  define k0 where "k0 = flit E 0"
  define k1 where "k1 = flit E 1"
  define kt where "kt = flit E 0.0031308"
  define k255 where "k255 = flit E 255"
  define h where "h = flit E 0.5"
  define c where "c = dlit E 12.92"
  define m1 where "m1 = d_of_f E x * c"
  define m2 where "m2 = m1 * d_of_f E k255"
  define y where "y = d_of_f E h + m2"
  have enc: "sRGB_from_linearRGB E x =
      (if x \<le> k0 then 0 else if k1 \<le> x then 255
       else if x < kt then uchar_of_d E y
       else uchar_of_f E (k0 + k255 * (powf E x (k1 / flit E 2.4) * flit E 1.055 - flit E 0.055)))"
    by (simp add: sRGB_from_linearRGB_def k0_def k1_def kt_def k255_def h_def c_def m1_def
        m2_def y_def)
  have f0: "fval E k0 = 0" and f1: "fval E k1 = 1" and f255: "fval E k255 = 255"
    unfolding k0_def k1_def k255_def by (rule ieee_lits[OF I])+
  have n0: "\<not> x \<le> k0" using Xpos by (simp add: ieee_ops(7)[OF I] f0 X_def)
  have n1: "\<not> k1 \<le> x" using Xs by (simp add: ieee_ops(7)[OF I] f1 X_def)
  have ct: "rel_close (1 / 10 ^ 6) (fval E kt) 0.0031308" unfolding kt_def by (rule lit_close[OF I]) simp_all
  have "31 / 10000 \<le> fval E kt" using ct by (simp add: rel_close_def)
  then have lt: "x < kt" using Xs by (simp add: ieee_ops(6)[OF I] X_def)
  have res: "sRGB_from_linearRGB E x = uchar_of_d E y" using n0 n1 lt by (simp add: enc)
  \<comment> \<open>times 12.92\<close>
  have cc: "rel_close (1 / 10 ^ 6) (dval E c) 12.92"
    unfolding c_def using ieee_double(3)[OF I] by (rule close_rounds) simp_all
  have a0: "rel_close (1 / 10 ^ 5 + 1 / 10 ^ 6 + 1 / 10 ^ 5 * (1 / 10 ^ 6)) (X * dval E c) (toe V * 12.92)"
    using xc cc tl by (intro close_mult) simp_all
  have tv: "toe V * 12.92 = V / 255" by (simp add: toe_def)
  from a0 have a1: "rel_close (12 / 10 ^ 6) (X * dval E c) (V / 255)"
    unfolding tv by (rule close_weaken) (use V in simp_all)
  have "rounds (dval E m1) (X * dval E c)"
    using ieee_double(2)[OF I, of "d_of_f E x" c] by (simp add: m1_def ieee_double(4)[OF I] X_def)
  then have "rel_close (12 / 10 ^ 6 + 2 / 10 ^ 6) (dval E m1) (V / 255)"
    using a1 by (rule round_close) (use V in simp_all)
  then have b1: "rel_close (14 / 10 ^ 6) (dval E m1) (V / 255)" by simp
  \<comment> \<open>times 255\<close>
  have "rel_close (14 / 10 ^ 6 + 0 + 14 / 10 ^ 6 * 0) (dval E m1 * 255) (V / 255 * 255)"
    using b1 V by (intro close_mult close_refl) simp_all
  then have a2: "rel_close (14 / 10 ^ 6) (dval E m1 * 255) V" by simp
  have "rounds (dval E m2) (dval E m1 * 255)"
    using ieee_double(2)[OF I, of m1 "d_of_f E k255"] by (simp add: m2_def ieee_double(4)[OF I] f255)
  then have "rel_close (14 / 10 ^ 6 + 2 / 10 ^ 6) (dval E m2) V"
    using a2 by (rule round_close) (use V in simp_all)
  then have "\<bar>dval E m2 - V\<bar> \<le> V * (14 / 10 ^ 6 + 2 / 10 ^ 6)" by (rule close_abs) (use V in simp)
  moreover have "V * (14 / 10 ^ 6 + 2 / 10 ^ 6) \<le> 10 * (14 / 10 ^ 6 + 2 / 10 ^ 6)"
    using V by (intro mult_right_mono) simp_all
  ultimately have m2a: "\<bar>dval E m2 - V\<bar> \<le> 1 / 1000" by simp
  \<comment> \<open>plus one half\<close>
  have "rel_close (1 / 10 ^ 6) (fval E h) 0.5" unfolding h_def by (rule lit_close[OF I]) simp_all
  from close_abs[OF this] have ha: "\<bar>fval E h - 1 / 2\<bar> \<le> 1 / 1000" by simp
  define S where "S = fval E h + dval E m2"
  have Sa: "\<bar>S - (V + 1 / 2)\<bar> \<le> 2 / 1000" unfolding S_def using ha m2a by linarith
  have Sl: "1 / 1000000 \<le> S" and Su: "S \<le> 1000" using Sa V by linarith+
  have "rounds (dval E y) S"
    using ieee_double(1)[OF I, of "d_of_f E h" m2] by (simp add: y_def S_def ieee_double(4)[OF I])
  then have "\<bar>dval E y - S\<bar> \<le> S / 1000000" using Sl Su by (rule near_abs)
  moreover have "S / 1000000 \<le> 1 / 1000" using Sa V by linarith
  ultimately have ya: "\<bar>dval E y - (V + 1 / 2)\<bar> \<le> 3 / 1000" using Sa by linarith
  have yl: "V \<le> dval E y" and yu: "dval E y < V + 1" using ya by linarith+
  have y0: "0 \<le> dval E y" and y256: "dval E y < 256" using yl yu V by linarith+
  have "uchar_of_d E y = word_of_int \<lfloor>dval E y\<rfloor>" using y0 y256 by (rule ieee_uchar(2)[OF I])
  moreover have "\<lfloor>dval E y\<rfloor> = uint v" using yl yu unfolding V_def by (intro floor_unique) simp_all
  ultimately show ?thesis unfolding res by simp
qed

lemma byte_pred: "1 \<le> uint (v :: 8 word) \<Longrightarrow> uint (v - 1) = uint v - 1"
  by uint_arith

lemma encode_decoded:
  fixes E :: "('f::{plus,minus,times,inverse,ord}, 'd::{plus,times}) float_env"
  assumes I: "ieee_like E" and x: "fval E x = fval E (linearRGB_from_sRGB E v)"
  shows "sRGB_from_linearRGB E x = v \<or> (11 \<le> uint v \<and> sRGB_from_linearRGB E x = v - 1)"
proof -
  consider "uint v = 0" | "1 \<le> uint v" "uint v \<le> 10" | "11 \<le> uint v"
    using byte_range(1)[of v] by linarith
  then show ?thesis
  proof cases
    case 1
    then have "v = 0" by (metis word_of_int_uint word_of_int_0)
    moreover have "sRGB_from_linearRGB E x = 0"
      using I by (rule encode_zero) (simp add: x decode_zero[OF I 1])
    ultimately show ?thesis by simp
  next
    case 2
    have "rel_close (1 / 10 ^ 5) (fval E x) (toe (real_of_int (uint v)))"
      unfolding x by (rule decode_low[OF I 2])
    with I 2 have "sRGB_from_linearRGB E x = v" by (rule encode_low)
    then show ?thesis by simp
  next
    case 3
    have "rel_close (2 / 10 ^ 4) (fval E x) (gamma_base (real_of_int (uint v)) powr 2.4)"
      unfolding x using decode_high[OF I 3] by (rule close_weaken) simp_all
    from encode_high[OF I 3 this] 3 show ?thesis by blast
  qed
qed

lemma round_trip_uint:
  fixes E :: "('f::{plus,minus,times,inverse,ord}, 'd::{plus,times}) float_env"
  assumes I: "ieee_like E" and x: "fval E x = fval E (linearRGB_from_sRGB E v)"
  shows "uint (sRGB_from_linearRGB E x) = uint v \<or> uint (sRGB_from_linearRGB E x) = uint v - 1"
    and "0 < uint v \<Longrightarrow> 0 < uint (sRGB_from_linearRGB E x) \<or> uint v = 1"
  using encode_decoded[OF I x] by (auto simp add: byte_pred)

lemma round_trip_cases:
  fixes E :: "('f::{plus,minus,times,inverse,ord}, 'd::{plus,times}) float_env"
  assumes I: "ieee_like E"
  shows "uint (round_trip E v) = uint v \<or> uint (round_trip E v) = uint v - 1"
  unfolding round_trip_def by (rule round_trip_uint(1)[OF I]) simp

text \<open>
  Claim C3. On a platform whose arithmetic rounds as \<open>ieee_like\<close> states, encoding the
  decoded value of a byte \<open>v\<close> gives \<open>v - 1\<close>, \<open>v\<close> or \<open>v + 1\<close>, and the composition is
  non-decreasing in \<open>v\<close>.
\<close>

theorem codec_round_trip:
  fixes E :: "('f::{plus,minus,times,inverse,ord}, 'd::{plus,times}) float_env"
  assumes "ieee_like E"
  shows "(uint (round_trip E v) = uint v - 1 \<or> uint (round_trip E v) = uint v \<or>
          uint (round_trip E v) = uint v + 1) \<and>
         (v \<le> w \<longrightarrow> round_trip E v \<le> round_trip E w)"
proof -
  note a = round_trip_cases[OF assms, of v] and b = round_trip_cases[OF assms, of w]
  have "round_trip E v \<le> round_trip E w" if le: "v \<le> w"
  proof (cases "v = w")
    case True
    then show ?thesis by simp
  next
    case False
    with le have "uint v < uint w" by (simp add: word_le_def word_uint_eq_iff)
    with a b have "uint (round_trip E v) \<le> uint (round_trip E w)" by linarith
    then show ?thesis by (simp add: word_le_def)
  qed
  with a show ?thesis by blast
qed

theorem codec_round_trip_witness:
  "(uint (round_trip exact_env 200) = 199 \<or> uint (round_trip exact_env 200) = 200 \<or>
    uint (round_trip exact_env 200) = 201) \<and>
   round_trip exact_env 100 \<le> round_trip exact_env 200"
  using codec_round_trip[OF exact_env_ieee_like, of 200 200]
    codec_round_trip[OF exact_env_ieee_like, of 100 200]
  by simp

subsection \<open>Severity 0 and severity 1\<close>

lemma blend_zero:
  fixes E :: "('f::{plus,minus,times,inverse,ord}, 'd::{plus,times}) float_env"
  assumes I: "ieee_like E" and s: "fval E s = 0"
  shows "fval E (c * s + x * (flit E 1 - s)) = fval E x"
    and "fval E (s * c + (flit E 1 - s) * x) = fval E x"
proof -
  have a: "fval E (c * s) = 0" using ieee_ops(3)[OF I, of c s] by (simp add: s rounds_zero)
  have a': "fval E (s * c) = 0" using ieee_ops(3)[OF I, of s c] by (simp add: s rounds_zero)
  have "fval E (flit E 1 - s) = fval E (flit E 1) - fval E s"
    by (rule ieee_exact(2)[OF I, of "flit E 1"]) (simp add: s)
  then have b: "fval E (flit E 1 - s) = 1" by (simp add: s ieee_lits[OF I])
  have "fval E (x * (flit E 1 - s)) = fval E x * fval E (flit E 1 - s)"
    by (rule ieee_exact(3)[OF I, of x]) (simp add: b)
  then have c: "fval E (x * (flit E 1 - s)) = fval E x" by (simp add: b)
  have "fval E ((flit E 1 - s) * x) = fval E (flit E 1 - s) * fval E x"
    by (rule ieee_exact(3)[OF I, of x]) (simp add: b)
  then have c': "fval E ((flit E 1 - s) * x) = fval E x" by (simp add: b)
  have "fval E (c * s + x * (flit E 1 - s)) = fval E (c * s) + fval E (x * (flit E 1 - s))"
    by (rule ieee_exact(1)[OF I, of x]) (simp add: a c)
  then show "fval E (c * s + x * (flit E 1 - s)) = fval E x" by (simp add: a c)
  have "fval E (s * c + (flit E 1 - s) * x) = fval E (s * c) + fval E ((flit E 1 - s) * x)"
    by (rule ieee_exact(1)[OF I, of x]) (simp add: a' c')
  then show "fval E (s * c + (flit E 1 - s) * x) = fval E x" by (simp add: a' c')
qed

lemma blend_one:
  fixes E :: "('f::{plus,minus,times,inverse,ord}, 'd::{plus,times}) float_env"
  assumes I: "ieee_like E" and s: "fval E s = 1"
  shows "fval E (c * s + x * (flit E 1 - s)) = fval E c"
proof -
  have "fval E (c * s) = fval E c * fval E s" by (rule ieee_exact(3)[OF I, of c]) (simp add: s)
  then have a: "fval E (c * s) = fval E c" by (simp add: s)
  have "fval E (flit E 1 - s) = fval E (flit E 1) - fval E s"
    by (rule ieee_exact(2)[OF I, of "flit E 0"]) (simp add: s ieee_lits[OF I])
  then have b: "fval E (flit E 1 - s) = 0" by (simp add: s ieee_lits[OF I])
  have c: "fval E (x * (flit E 1 - s)) = 0"
    using ieee_ops(3)[OF I, of x "flit E 1 - s"] by (simp add: b rounds_zero)
  have "fval E (c * s + x * (flit E 1 - s)) = fval E (c * s) + fval E (x * (flit E 1 - s))"
    by (rule ieee_exact(1)[OF I, of c]) (simp add: a c)
  then show ?thesis by (simp add: a c)
qed

lemma guard_zero_one:
  fixes E :: "('f::{plus,minus,times,inverse,ord}, 'd::{plus,times}) float_env"
  assumes I: "ieee_like E"
  shows "fval E s = 0 \<Longrightarrow> s < flit E 0.999" and "fval E s = 1 \<Longrightarrow> \<not> s < flit E 0.999"
proof -
  have "rel_close (1 / 10 ^ 6) (fval E (flit E 0.999)) 0.999" by (rule lit_close[OF I]) simp_all
  then have l: "9 / 10 \<le> fval E (flit E 0.999)" and u: "fval E (flit E 0.999) < 1"
    by (simp_all add: rel_close_def)
  show "fval E s = 0 \<Longrightarrow> s < flit E 0.999" using l by (simp add: ieee_ops(6)[OF I])
  show "fval E s = 1 \<Longrightarrow> \<not> s < flit E 0.999" using u by (simp add: ieee_ops(6)[OF I])
qed

lemma byte_near_round_trip:
  fixes E :: "('f::{plus,minus,times,inverse,ord}, 'd::{plus,times}) float_env"
  assumes I: "ieee_like E" and x: "fval E x = fval E (linearRGB_from_sRGB E v)"
  shows "byte_near (sRGB_from_linearRGB E x) v"
  using round_trip_uint(1)[OF I x] unfolding byte_near_def by linarith

lemma brettel_zero_pixel:
  fixes E :: "('f::{plus,minus,times,inverse,ord}, 'd::{plus,times}) float_env"
  assumes I: "ieee_like E" and s: "fval E s = 0"
  shows "colour_near (brettel1997_rgb E p s px) px"
proof -
  obtain r g b where px: "px = (r, g, b)" by (cases px) auto
  show ?thesis
    unfolding px colour_near_def brettel1997_rgb_def brettel1997_linear_def
      brettel1997_interpolate_def encode_rgb_def decode_rgb_def
    by (simp add: byte_near_round_trip[OF I] blend_zero(1)[OF I s])
qed

lemma vienot_zero_pixel:
  fixes E :: "('f::{plus,minus,times,inverse,ord}, 'd::{plus,times}) float_env"
  assumes I: "ieee_like E" and s: "fval E s = 0"
  shows "colour_near (vienot1999_rgb E m s px) px"
proof -
  obtain r g b where px: "px = (r, g, b)" by (cases px) auto
  show ?thesis
    unfolding px colour_near_def vienot1999_rgb_def vienot1999_linear_def
      vienot1999_interpolate_def encode_rgb_def decode_rgb_def
    using guard_zero_one(1)[OF I s]
    by (simp add: byte_near_round_trip[OF I] blend_zero(2)[OF I s])
qed

lemma scan_colours_kept:
  assumes "total_scan f mem img w h st result" and "\<And>px. colour_near (f px) px"
  shows "colours_kept mem img w h st result"
proof -
  from assms(1) obtain mem' where r: "result = Inr mem'"
    and l: "\<And>row c. row < h \<and> c < w \<Longrightarrow>
              load_rgb mem' (pixel_addr img st row c) = f (load_rgb mem (pixel_addr img st row c))"
    unfolding total_scan_def by blast
  have "colour_near (load_rgb mem' (pixel_addr img st row c)) (load_rgb mem (pixel_addr img st row c))"
    if "row < h \<and> c < w" for row c
    unfolding l[OF that] by (rule assms(2))
  with r show ?thesis unfolding colours_kept_def by blast
qed

lemma vienot_full_severity:
  fixes E :: "('f::{plus,minus,times,inverse,ord}, 'd::{plus,times}) float_env"
  assumes I: "ieee_like E" and s: "fval E s = 1"
  shows "vienot1999_linear E m s rgb = mat_vec m rgb"
  using guard_zero_one(2)[OF I s] by (simp add: vienot1999_linear_def vienot1999_interpolate_def)

lemma exact_env_float_unique: "float_unique exact_env"
  by (simp add: float_unique_def exact_env_def)

lemma encode_same_value:
  fixes E :: "('f::{plus,minus,times,inverse,ord}, 'd::{plus,times}) float_env"
  assumes I: "ieee_like E" and U: "float_unique E" and e: "fval E x = fval E y"
  shows "sRGB_from_linearRGB E x = sRGB_from_linearRGB E y"
proof (cases "fval E x = 0")
  case True
  then have "fval E y = 0" using e by simp
  with True show ?thesis by (simp add: encode_zero[OF I])
next
  case False
  with U e have "x = y" unfolding float_unique_def by blast
  then show ?thesis by simp
qed

lemma brettel_one_pixel:
  fixes E :: "('f::{plus,minus,times,inverse,ord}, 'd::{plus,times}) float_env"
  assumes I: "ieee_like E" and U: "float_unique E" and s: "fval E s = 1"
  shows "brettel1997_rgb E p s px = full_brettel E p px"
  unfolding brettel1997_rgb_def full_brettel_def brettel1997_linear_def
    brettel1997_interpolate_def encode_rgb_def
  by (simp add: encode_same_value[OF I U blend_one[OF I s]])

lemma vienot_one_pixel:
  fixes E :: "('f::{plus,minus,times,inverse,ord}, 'd::{plus,times}) float_env"
  assumes I: "ieee_like E" and s: "fval E s = 1"
  shows "vienot1999_rgb E m s px = full_vienot E m px"
  unfolding vienot1999_rgb_def full_vienot_def by (simp add: vienot_full_severity[OF I s])

lemma total_scan_cong:
  assumes "total_scan f mem img w h st result" and "\<And>px. f px = g px"
  shows "total_scan g mem img w h st result"
proof -
  from assms(2) have "f = g" by (rule ext)
  with assms(1) show ?thesis by simp
qed

lemma full_brettel_tritan_pixel:
  "full_brettel exact_env (brettel_tritan_params exact_env) (8, 10, 0) = (9, 9, 9)"
  by (simp add: full_brettel_def rgbCvdFromRgb_def dotWithSepPlane_def brettel_tritan_params_def
      mat_vec_def decode_rgb_def encode_rgb_def linearRGB_from_sRGB_def sRGB_from_linearRGB_def
      exact_env_def trunc_uchar_def Let_def)

lemma full_vienot_tritan_pixel:
  "full_vienot exact_env (dl_vienot_tritan_rgbCvd_from_rgb exact_env) (8, 10, 0) = (9, 9, 9)"
  by (simp add: full_vienot_def mat_vec_def
      decode_rgb_def encode_rgb_def linearRGB_from_sRGB_def sRGB_from_linearRGB_def
      dl_vienot_tritan_rgbCvd_from_rgb_def exact_env_def trunc_uchar_def Let_def)

text \<open>
  Claim C4. On a platform whose arithmetic rounds as \<open>ieee_like\<close> states, for every
  deficiency of the enumeration and every buffer whose stride is 0 or at least
  \<^verbatim>\<open>width * 4\<close>: each of the three entry points called with a severity of value 0 returns,
  and each colour byte of each pixel is then within 1 of what it was; called with a
  severity of value 1, \<^verbatim>\<open>dl_simulate_cvd_vienot1999\<close> (and \<^verbatim>\<open>dl_simulate_cvd\<close> for
  Protan and Deutan) returns with the colour bytes of every pixel replaced by its full
  simulated colour and every other byte unchanged, and so do
  \<^verbatim>\<open>dl_simulate_cvd_brettel1997\<close> (and \<^verbatim>\<open>dl_simulate_cvd\<close> for Tritan) where a nonzero
  \<^verbatim>\<open>float\<close> is determined by its value.
\<close>

theorem severity_endpoints:
  fixes E :: "('f::{plus,minus,times,inverse,ord}, 'd::{plus,times,uminus}) float_env"
  assumes "ieee_like E" and "valid_deficiency d" and "stride_ok w bpr"
    and "fval E zero = 0" and "fval E one = 1"
  shows "colours_kept mem img w h (effective_stride w bpr)
           (dl_simulate_cvd E d zero mem img w h bpr) \<and>
         colours_kept mem img w h (effective_stride w bpr)
           (dl_simulate_cvd_brettel1997 E d zero mem img w h bpr) \<and>
         colours_kept mem img w h (effective_stride w bpr)
           (dl_simulate_cvd_vienot1999 E d zero mem img w h bpr) \<and>
         (\<exists>p m. brettel_params_of E d = Some p \<and> vienot_matrix_of E d = Some m \<and>
            total_scan (full_vienot E m) mem img w h (effective_stride w bpr)
              (dl_simulate_cvd_vienot1999 E d one mem img w h bpr) \<and>
            (d \<noteq> DLDeficiency_Tritan \<longrightarrow>
               total_scan (full_vienot E m) mem img w h (effective_stride w bpr)
                 (dl_simulate_cvd E d one mem img w h bpr)) \<and>
            (float_unique E \<longrightarrow>
               total_scan (full_brettel E p) mem img w h (effective_stride w bpr)
                 (dl_simulate_cvd_brettel1997 E d one mem img w h bpr) \<and>
               (d = DLDeficiency_Tritan \<longrightarrow>
                  total_scan (full_brettel E p) mem img w h (effective_stride w bpr)
                    (dl_simulate_cvd E d one mem img w h bpr))))"
proof -
  from valid_brettel_params[OF assms(2)] obtain p where p: "brettel_params_of E d = Some p" by blast
  from valid_vienot_matrix[OF assms(2)] obtain m where m: "vienot_matrix_of E d = Some m" by blast
  have B: "colours_kept mem img w h (effective_stride w bpr)
             (dl_simulate_cvd_brettel1997 E d zero mem img w h bpr)"
    by (rule scan_colours_kept[OF brettel1997_scan[OF p assms(3)]])
       (rule brettel_zero_pixel[OF assms(1,4)])
  have V: "colours_kept mem img w h (effective_stride w bpr)
             (dl_simulate_cvd_vienot1999 E d zero mem img w h bpr)"
    by (rule scan_colours_kept[OF vienot1999_scan[OF m assms(3)]])
       (rule vienot_zero_pixel[OF assms(1,4)])
  have D: "colours_kept mem img w h (effective_stride w bpr)
             (dl_simulate_cvd E d zero mem img w h bpr)"
    by (rule dispatch_either[where P = "colours_kept mem img w h (effective_stride w bpr)", OF B V])
  have FV: "total_scan (full_vienot E m) mem img w h (effective_stride w bpr)
              (dl_simulate_cvd_vienot1999 E d one mem img w h bpr)"
    by (rule total_scan_cong[OF vienot1999_scan[OF m assms(3)]])
       (rule vienot_one_pixel[OF assms(1,5)])
  have DV: "d \<noteq> DLDeficiency_Tritan \<longrightarrow>
               total_scan (full_vienot E m) mem img w h (effective_stride w bpr)
                 (dl_simulate_cvd E d one mem img w h bpr)"
    using FV by (cases "d = DLDeficiency_Tritan") (simp_all add: dispatch_if)
  have FB: "total_scan (full_brettel E p) mem img w h (effective_stride w bpr)
                 (dl_simulate_cvd_brettel1997 E d one mem img w h bpr)" if U: "float_unique E"
    by (rule total_scan_cong[OF brettel1997_scan[OF p assms(3)]])
       (rule brettel_one_pixel[OF assms(1) U assms(5)])
  have DB: "d = DLDeficiency_Tritan \<longrightarrow>
                  total_scan (full_brettel E p) mem img w h (effective_stride w bpr)
                    (dl_simulate_cvd E d one mem img w h bpr)" if U: "float_unique E"
    using FB[OF U] by (cases "d = DLDeficiency_Tritan") (simp_all add: dispatch_if)
  from D B V p m FV DV FB DB show ?thesis by blast
qed

theorem severity_endpoints_witness:
  "valid_deficiency DLDeficiency_Tritan \<and> stride_ok 1 8 \<and>
   (\<exists>mem'. dl_simulate_cvd exact_env DLDeficiency_Tritan 0 test_image 0 1 2 8 = Inr mem' \<and>
      \<bar>uint (mem' 0) - 10\<bar> \<le> 1 \<and> \<bar>uint (mem' 1) - 0\<bar> \<le> 1 \<and> \<bar>uint (mem' 9) - 10\<bar> \<le> 1) \<and>
   (\<exists>mem'. dl_simulate_cvd exact_env DLDeficiency_Tritan 1 test_image 0 1 2 8 = Inr mem' \<and>
      mem' 8 = 9 \<and> mem' 9 = 9 \<and> mem' 10 = 9) \<and>
   (\<exists>mem'. dl_simulate_cvd_vienot1999 exact_env DLDeficiency_Tritan 1 test_image 0 1 2 8 = Inr mem' \<and>
      mem' 8 = 9 \<and> mem' 9 = 9 \<and> mem' 10 = 9)"
proof -
  have v: "valid_deficiency DLDeficiency_Tritan" by (simp add: valid_deficiency_def)
  have g: "stride_ok 1 8" by (simp add: stride_ok_def)
  have z: "fval exact_env 0 = 0" and o: "fval exact_env 1 = 1" by (simp_all add: exact_env_def)
  have tab: "brettel_params_of exact_env DLDeficiency_Tritan = Some (brettel_tritan_params exact_env)"
    by (simp add: brettel_params_of_def DLDeficiency_Protan_def DLDeficiency_Deutan_def
        DLDeficiency_Tritan_def)
  note t = severity_endpoints[OF exact_env_ieee_like v g z o, of test_image 0 2]
  from t have "colours_kept test_image 0 1 2 (effective_stride 1 8)
          (dl_simulate_cvd exact_env DLDeficiency_Tritan 0 test_image 0 1 2 8)" by blast
  then obtain mem0 where r0: "dl_simulate_cvd exact_env DLDeficiency_Tritan 0 test_image 0 1 2 8 = Inr mem0"
    and a: "\<And>row c. row < 2 \<and> c < 1 \<Longrightarrow>
              colour_near (load_rgb mem0 (pixel_addr 0 (effective_stride 1 8) row c))
                          (load_rgb test_image (pixel_addr 0 (effective_stride 1 8) row c))"
    unfolding colours_kept_def by blast
  from a[of 0 0] a[of 1 0]
  have n: "\<bar>uint (mem0 0) - 10\<bar> \<le> 1 \<and> \<bar>uint (mem0 1) - 0\<bar> \<le> 1 \<and> \<bar>uint (mem0 9) - 10\<bar> \<le> 1"
    by (simp add: pixel_addr_def effective_stride_def test_image_def load_rgb_def colour_near_def
        byte_near_def)
  from t exact_env_float_unique obtain p where p: "brettel_params_of exact_env DLDeficiency_Tritan = Some p"
    and f: "total_scan (full_brettel exact_env p) test_image 0 1 2 (effective_stride 1 8)
              (dl_simulate_cvd exact_env DLDeficiency_Tritan 1 test_image 0 1 2 8)"
    by blast
  from p tab have pe: "p = brettel_tritan_params exact_env" by simp
  from f obtain mem1 where r1: "dl_simulate_cvd exact_env DLDeficiency_Tritan 1 test_image 0 1 2 8 = Inr mem1"
    and l: "\<And>row c. row < 2 \<and> c < 1 \<Longrightarrow>
              load_rgb mem1 (pixel_addr 0 (effective_stride 1 8) row c) =
              full_brettel exact_env p (load_rgb test_image (pixel_addr 0 (effective_stride 1 8) row c))"
    unfolding total_scan_def by blast
  have ld: "load_rgb test_image (pixel_addr 0 (effective_stride 1 8) 1 0) = (8, 10, 0)"
    by (simp add: pixel_addr_def effective_stride_def test_image_def load_rgb_def)
  from l[of 1 0] have "load_rgb mem1 (pixel_addr 0 (effective_stride 1 8) 1 0) = (9, 9, 9)"
    unfolding ld pe full_brettel_tritan_pixel by simp
  then have b: "mem1 8 = 9 \<and> mem1 9 = 9 \<and> mem1 10 = 9"
    by (simp add: load_rgb_def pixel_addr_def effective_stride_def)
  have vtab: "vienot_matrix_of exact_env DLDeficiency_Tritan =
      Some (dl_vienot_tritan_rgbCvd_from_rgb exact_env)"
    by (simp add: vienot_matrix_of_def DLDeficiency_Protan_def DLDeficiency_Deutan_def
        DLDeficiency_Tritan_def)
  from t obtain m where m: "vienot_matrix_of exact_env DLDeficiency_Tritan = Some m"
    and fv: "total_scan (full_vienot exact_env m) test_image 0 1 2 (effective_stride 1 8)
              (dl_simulate_cvd_vienot1999 exact_env DLDeficiency_Tritan 1 test_image 0 1 2 8)"
    by blast
  from m vtab have me: "m = dl_vienot_tritan_rgbCvd_from_rgb exact_env" by simp
  from fv obtain mem2 where r2: "dl_simulate_cvd_vienot1999 exact_env DLDeficiency_Tritan 1 test_image 0 1 2 8 = Inr mem2"
    and l2: "\<And>row c. row < 2 \<and> c < 1 \<Longrightarrow>
              load_rgb mem2 (pixel_addr 0 (effective_stride 1 8) row c) =
              full_vienot exact_env m (load_rgb test_image (pixel_addr 0 (effective_stride 1 8) row c))"
    unfolding total_scan_def by blast
  from l2[of 1 0] have "load_rgb mem2 (pixel_addr 0 (effective_stride 1 8) 1 0) = (9, 9, 9)"
    unfolding ld me full_vienot_tritan_pixel by simp
  then have c: "mem2 8 = 9 \<and> mem2 9 = 9 \<and> mem2 10 = 9"
    by (simp add: load_rgb_def pixel_addr_def effective_stride_def)
  from v g r0 n r1 b r2 c show ?thesis by blast
qed

subsection \<open>Severity between 0 and 1\<close>
























end
